theory Spec2Isabelle
  imports Main
begin

section \<open>Python exceptions\<close>

text \<open>
  The exceptions the three modules can raise. A call that raises is modelled as a
  result \<open>Inl e\<close>; a call that returns is \<open>Inr v\<close>. Methods that mutate an object
  return the mutated object next to the result, so that what was already assigned
  before a raise stays visible.
\<close>

datatype py_error =
    IndexError
  | NameError string
  | UnboundLocalError string
  | OSError string
  | ValueError string
  | KeyError string

section \<open>SQLBuilder.py\<close>

subsection \<open>The object\<close>

text \<open>
  \<open>__init__\<close> is \<open>pass\<close>: a new \<open>SQLBuilder\<close> has none of its four attributes.
  An attribute that has not been assigned yet is \<open>None\<close> here.
\<close>

record SQLBuilder =
  selection_args :: "string list option"
  selection_text :: "string option"
  where_kwargs :: "(string \<times> string) list option"
  where_text :: "string option"

definition init :: SQLBuilder where
  "init = \<lparr>selection_args = None, selection_text = None,
           where_kwargs = None, where_text = None\<rparr>"

subsection \<open>col_selection\<close>

text \<open>\<open>t[-1]\<close> on a tuple: the last element, \<open>IndexError\<close> on the empty tuple.\<close>

definition index_last :: "'a list \<Rightarrow> py_error + 'a" where
  "index_last xs = (case xs of [] \<Rightarrow> Inl IndexError | _ # _ \<Rightarrow> Inr (last xs))"

text \<open>
  The loop \<open>for arg in self.selection_args[:-1]: self.selection_text += f'{arg}, '\<close>,
  run on the text accumulated so far. The slice \<open>[:-1]\<close> is \<^const>\<open>butlast\<close>, which is
  empty on the empty tuple as the slice is.
\<close>

fun selection_loop :: "string \<Rightarrow> string list \<Rightarrow> string" where
  "selection_loop text [] = text"
| "selection_loop text (arg # args) = selection_loop (text @ arg @ '', '') args"

definition col_selection ::
  "SQLBuilder \<Rightarrow> string list \<Rightarrow> SQLBuilder \<times> (py_error + unit)" where
  "col_selection self args =
     (let self1 = self\<lparr>selection_args := Some args\<rparr>;
          self2 = self1\<lparr>selection_text := Some ''SELECT ''\<rparr>;
          text = selection_loop ''SELECT '' (butlast args);
          self3 = self2\<lparr>selection_text := Some text\<rparr>
      in case index_last args of
           Inl e \<Rightarrow> (self3, Inl e)
         | Inr l \<Rightarrow> (self3\<lparr>selection_text := Some (text @ l)\<rparr>, Inr ()))"

text \<open>
  The form the specification gives for the result, written from its words:
  \<open>SELECT col1, col2, ..., colN\<close>, the columns joined by a comma and a space.
\<close>

fun spec_join :: "string \<Rightarrow> string list \<Rightarrow> string" where
  "spec_join sep [] = []"
| "spec_join sep [x] = x"
| "spec_join sep (x # y # ys) = x @ sep @ spec_join sep (y # ys)"

definition spec_select_form :: "string list \<Rightarrow> string" where
  "spec_select_form cols = ''SELECT '' @ spec_join '', '' cols"

subsection \<open>where_clause\<close>

text \<open>
  \<open>str.lower\<close> on the keys. Only the comparison with \<open>'w_and'\<close> and \<open>'w_or'\<close> reads the
  result, and the only characters that lower-case to a letter of these two words are
  the ASCII capitals, so the table of the ASCII capitals decides the comparison; every
  other character stays as it is.
\<close>

definition lower_char :: "char \<Rightarrow> char" where
  "lower_char c =
     (case map_of (zip ''ABCDEFGHIJKLMNOPQRSTUVWXYZ'' ''abcdefghijklmnopqrstuvwxyz'') c of
        Some l \<Rightarrow> l
      | None \<Rightarrow> c)"

definition lower :: "string \<Rightarrow> string" where
  "lower s = map lower_char s"

text \<open>
  The loop over \<open>self.where_kwargs.items()\<close>. The keyword arguments are a dictionary
  in insertion order, here the list of its items in that order.
\<close>

fun where_loop :: "string \<Rightarrow> (string \<times> string) list \<Rightarrow> string" where
  "where_loop text [] = text"
| "where_loop text ((key, val) # items) =
     (if lower key = ''w_and'' then where_loop (text @ ''AND '' @ val @ '' '') items
      else if lower key = ''w_or'' then where_loop (text @ ''OR '' @ val @ '' '') items
      else where_loop text items)"

definition where_clause ::
  "SQLBuilder \<Rightarrow> string \<Rightarrow> (string \<times> string) list \<Rightarrow> SQLBuilder \<times> (py_error + unit)" where
  "where_clause self first_arg kwargs =
     (let self1 = self\<lparr>where_kwargs := Some kwargs\<rparr>;
          self2 = self1\<lparr>where_text := Some (''WHERE '' @ first_arg @ '' '')\<rparr>
      in (self2\<lparr>where_text := Some (where_loop (''WHERE '' @ first_arg @ '' '') kwargs)\<rparr>,
          Inr ()))"

text \<open>The two markers, and the segment one recognised entry appends.\<close>

definition is_and :: "string \<Rightarrow> bool" where
  "is_and key = (lower key = ''w_and'')"

definition is_or :: "string \<Rightarrow> bool" where
  "is_or key = (lower key = ''w_or'')"

definition recognised :: "string \<times> string \<Rightarrow> bool" where
  "recognised item = (is_and (fst item) \<or> is_or (fst item))"

definition connector :: "string \<Rightarrow> string" where
  "connector key = (if is_and key then ''AND'' else ''OR'')"

definition segment :: "string \<times> string \<Rightarrow> string" where
  "segment item = connector (fst item) @ '' '' @ snd item @ '' ''"

text \<open>
  The form the specification gives for the result, written from its words:
  \<open>WHERE <base> <CONNECTOR> <predicate> <CONNECTOR> <predicate> ...\<close>, one connector and
  one predicate per entry, in the order of the entries, single spaces between.
\<close>

definition spec_where_form :: "string \<Rightarrow> (string \<times> string) list \<Rightarrow> string" where
  "spec_where_form base entries =
     ''WHERE '' @ base @
     concat (map (\<lambda>entry. '' '' @ connector (fst entry) @ '' '' @ snd entry) entries)"

text \<open>The two calls the module makes on \<open>sqlbuild\<close> when it is imported.\<close>

definition howdy :: string where
  "howdy = ''MATER = 'Howdy Pardner'' @ [CHR 0x27]"

definition fog :: string where
  "fog = ''fog = 'low'' @ [CHR 0x27]"

definition sqlbuild :: SQLBuilder where
  "sqlbuild =
     fst (where_clause
            (fst (col_selection init
                    [''DATETIME'', ''ARG_WORKS'', ''LOCATION'', ''CHECK2'', ''ARG_WORKS'']))
            howdy
            [(''w_and'', fog), (''w_or'', ''LOCATION = 1'')])"

section \<open>file_creation_modified_date.py\<close>

text \<open>
  Sequencing of calls that may raise: the first exception ends the evaluation.
\<close>

definition and_then :: "py_error + 'a \<Rightarrow> ('a \<Rightarrow> py_error + 'b) \<Rightarrow> py_error + 'b" where
  "and_then r f = (case r of Inl e \<Rightarrow> Inl e | Inr v \<Rightarrow> f v)"

text \<open>
  The global names of the module once it is imported: its two imports
  (\<open>from datetime import datetime\<close>, \<open>import functools\<close>) and its two assignments.
  Of the builtins, the two lambdas name only \<open>str\<close>. Reading any other global name
  raises \<open>NameError\<close>.
\<close>

definition module_globals :: "string list" where
  "module_globals = [''datetime'', ''functools'', ''CREATED_TIME'', ''MODIFIED_TIME'']"

definition builtins_used :: "string list" where
  "builtins_used = [''str'']"

definition load_global :: "string \<Rightarrow> py_error + unit" where
  "load_global ident =
     (if ident \<in> set module_globals \<or> ident \<in> set builtins_used then Inr ()
      else Inl (NameError ident))"

text \<open>
  What the operating system and the standard library would supply: the file times
  (\<open>os.path.getctime\<close>, \<open>os.path.getmtime\<close>, raising for a missing path),
  \<open>time.ctime\<close>, \<open>datetime.strptime\<close> with the format \<open>'%a %b %d %H:%M:%S %Y'\<close>, and
  \<open>str(datetime.date(...))\<close>. They are parameters: \<open>'ts\<close> is the type of a file time,
  \<open>'dt\<close> that of a parsed date and time.
\<close>

record ('ts, 'dt) platform =
  getctime :: "string \<Rightarrow> py_error + 'ts"
  getmtime :: "string \<Rightarrow> py_error + 'ts"
  ctime :: "'ts \<Rightarrow> string"
  strptime :: "string \<Rightarrow> py_error + 'dt"
  date_str :: "'dt \<Rightarrow> string"

text \<open>
  The body of each lambda, in Python's order of evaluation: the callee of every call
  is looked up before its arguments are evaluated, so the names are read in the order
  \<open>str\<close>, \<open>datetime\<close> (for \<open>.date\<close>), \<open>datetime\<close> (for \<open>.strptime\<close>), \<open>time\<close>, \<open>os\<close>, and
  only then is the file time read. \<open>functools.partial\<close> with no bound argument passes
  the call on unchanged.
\<close>

definition CREATED_TIME :: "('ts, 'dt) platform \<Rightarrow> string \<Rightarrow> py_error + string" where
  "CREATED_TIME pf a =
     and_then (load_global ''str'') (\<lambda>_.
     and_then (load_global ''datetime'') (\<lambda>_.
     and_then (load_global ''datetime'') (\<lambda>_.
     and_then (load_global ''time'') (\<lambda>_.
     and_then (load_global ''os'') (\<lambda>_.
     and_then (getctime pf a) (\<lambda>ts.
     and_then (strptime pf (ctime pf ts)) (\<lambda>dt.
     Inr (date_str pf dt))))))))"

definition MODIFIED_TIME :: "('ts, 'dt) platform \<Rightarrow> string \<Rightarrow> py_error + string" where
  "MODIFIED_TIME pf a =
     and_then (load_global ''str'') (\<lambda>_.
     and_then (load_global ''datetime'') (\<lambda>_.
     and_then (load_global ''datetime'') (\<lambda>_.
     and_then (load_global ''time'') (\<lambda>_.
     and_then (load_global ''os'') (\<lambda>_.
     and_then (getmtime pf a) (\<lambda>ts.
     and_then (strptime pf (ctime pf ts)) (\<lambda>dt.
     Inr (date_str pf dt))))))))"

text \<open>
  A platform on which one file exists, for evaluating the two accessors: the file
  \<open>/tmp/report.txt\<close>, created and modified at time \<open>0\<close>, which the local clock renders
  as the first of January 1970.
\<close>

definition sample_platform :: "(nat, string) platform" where
  "sample_platform =
     \<lparr>getctime = (\<lambda>p. if p = ''/tmp/report.txt'' then Inr 0 else Inl (OSError p)),
      getmtime = (\<lambda>p. if p = ''/tmp/report.txt'' then Inr 0 else Inl (OSError p)),
      ctime = (\<lambda>_. ''Thu Jan  1 00:00:00 1970''),
      strptime = (\<lambda>s. Inr ''1970-01-01''),
      date_str = (\<lambda>d. d)\<rparr>"

section \<open>general_logger_setup.py\<close>

subsection \<open>Log records and format strings\<close>

text \<open>
  The five severities the logger methods \<open>debug\<close>, \<open>info\<close>, \<open>warning\<close>, \<open>error\<close> and
  \<open>critical\<close> emit, with their numbers and names in \<open>logging\<close>.
\<close>

datatype severity = DEBUG | INFO | WARNING | ERROR | CRITICAL

fun levelno :: "severity \<Rightarrow> nat" where
  "levelno DEBUG = 10"
| "levelno INFO = 20"
| "levelno WARNING = 30"
| "levelno ERROR = 40"
| "levelno CRITICAL = 50"

fun levelname :: "severity \<Rightarrow> string" where
  "levelname DEBUG = ''DEBUG''"
| "levelname INFO = ''INFO''"
| "levelname WARNING = ''WARNING''"
| "levelname ERROR = ''ERROR''"
| "levelname CRITICAL = ''CRITICAL''"

text \<open>
  A log record as the formatters of this module read it. \<open>lr_asctime\<close> is the creation
  time under the date format \<open>'%Y-%m-%d %H:%M:%S'\<close>, which the file formatter and the
  terminal formatter both pass; \<open>lr_asctime_json\<close> is the creation time as
  \<open>JsonFormatter\<close> renders it with its own time and millisecond formats. \<open>lr_extra\<close> holds
  the attributes a caller adds with the \<open>extra\<close> argument of a logging call; a plain
  call has none.
\<close>

record log_record =
  lr_name :: string
  lr_level :: severity
  lr_message :: string
  lr_asctime :: string
  lr_asctime_json :: string
  lr_processName :: string
  lr_process :: string
  lr_threadName :: string
  lr_thread :: string
  lr_extra :: "(string \<times> string) list"

text \<open>
  Reading an attribute by name from the record's dictionary, as \<open>%(field)s\<close> and
  \<open>record.__dict__[field]\<close> do; the first argument is the \<open>asctime\<close> the formatter at
  work has set. The attributes are those the formats of this module name, then the
  caller's extras.
\<close>

definition record_attr :: "string \<Rightarrow> log_record \<Rightarrow> string \<Rightarrow> string option" where
  "record_attr asctime r field =
     (if field = ''name'' then Some (lr_name r)
      else if field = ''levelname'' then Some (levelname (lr_level r))
      else if field = ''message'' then Some (lr_message r)
      else if field = ''asctime'' then Some asctime
      else if field = ''processName'' then Some (lr_processName r)
      else if field = ''process'' then Some (lr_process r)
      else if field = ''threadName'' then Some (lr_threadName r)
      else if field = ''thread'' then Some (lr_thread r)
      else map_of (lr_extra r) field)"

text \<open>
  A \<open>%\<close>-style format string, split into its literal pieces and its \<open>%(field)s\<close>
  fields. Formatting fills the fields from left to right; a field the record does not
  have raises (\<open>PercentStyle.format\<close> turns the \<open>KeyError\<close> into a \<open>ValueError\<close>).
\<close>

datatype fmt_token = Lit string | Field string

fun percent_format :: "fmt_token list \<Rightarrow> (string \<Rightarrow> string option) \<Rightarrow> py_error + string" where
  "percent_format [] attrs = Inr []"
| "percent_format (Lit s # ts) attrs =
     (case percent_format ts attrs of Inl e \<Rightarrow> Inl e | Inr rest \<Rightarrow> Inr (s @ rest))"
| "percent_format (Field f # ts) attrs =
     (case attrs f of
        None \<Rightarrow> Inl (ValueError f)
      | Some v \<Rightarrow>
          (case percent_format ts attrs of Inl e \<Rightarrow> Inl e | Inr rest \<Rightarrow> Inr (v @ rest)))"

subsection \<open>The formatters\<close>

text \<open>The escape character \<open>\x1b\<close> that starts each colour code.\<close>

definition esc :: string where
  "esc = [CHR 0x1B]"

text \<open>\<open>CustomTerminalFormat.FORMATS\<close>, one format per level.\<close>

fun FORMATS :: "severity \<Rightarrow> fmt_token list" where
  "FORMATS DEBUG =
     [Lit (esc @ ''[1;37m''), Field ''levelname'', Lit (esc @ ''[0m|''), Field ''asctime'',
      Lit (''|'' @ esc @ ''[32;1m''), Field ''names'', Lit (esc @ ''[0m| ''),
      Field ''message'']"
| "FORMATS INFO =
     [Lit (esc @ ''[34;1m''), Field ''levelname'', Lit (esc @ ''[0m|''), Field ''asctime'',
      Lit (''|'' @ esc @ ''[32;1m''), Field ''names'', Lit (esc @ ''[0m| ''),
      Field ''message'']"
| "FORMATS WARNING =
     [Lit (esc @ ''[33;1m''), Field ''levelname'', Lit (esc @ ''[0m|''), Field ''asctime'',
      Lit (''|'' @ esc @ ''[32;1m''), Field ''names'',
      Lit (esc @ ''[0m|'' @ esc @ ''[33;21m ''), Field ''message'', Lit (esc @ ''[0m'')]"
| "FORMATS ERROR =
     [Lit (esc @ ''[31;1m''), Field ''levelname'', Lit (esc @ ''[0m|''), Field ''asctime'',
      Lit (''|'' @ esc @ ''[32;1m''), Field ''names'',
      Lit (esc @ ''[0m|'' @ esc @ ''[31;21m ''), Field ''message'', Lit (esc @ ''[0m'')]"
| "FORMATS CRITICAL =
     [Lit (esc @ ''[37;1;41m''), Field ''levelname'',
      Lit (esc @ ''[0m|'' @ esc @ ''[37;1;41m''), Field ''asctime'',
      Lit (esc @ ''[0m|'' @ esc @ ''[37;1;41m''), Field ''names'',
      Lit (esc @ ''[0m|'' @ esc @ ''[37;1;41m ''), Field ''message'', Lit (esc @ ''[0m'')]"

text \<open>
  The format of the plain log file,
  \<open>'%(asctime)s - %(name)s - %(levelname)s - %(message)s'\<close>, the dictionary handed to
  \<open>JsonFormatter\<close>, and the format \<open>'%(message)s'\<close> that \<open>logging\<close> uses for a handler
  with no formatter.
\<close>

definition logfile_format :: "fmt_token list" where
  "logfile_format =
     [Field ''asctime'', Lit '' - '', Field ''name'', Lit '' - '', Field ''levelname'',
      Lit '' - '', Field ''message'']"

definition json_fmt_dict :: "(string \<times> string) list" where
  "json_fmt_dict =
     [(''level'', ''levelname''), (''message'', ''message''), (''loggerName'', ''name''),
      (''processName'', ''processName''), (''processID'', ''process''),
      (''threadName'', ''threadName''), (''threadID'', ''thread''),
      (''timestamp'', ''asctime'')]"

definition default_format :: "fmt_token list" where
  "default_format = [Field ''message'']"

text \<open>
  The three formatter classes in use: \<open>logging.Formatter\<close> with a format string (and the
  date format above), \<open>JsonFormatter\<close> with its dictionary, and \<open>CustomTerminalFormat\<close>.
\<close>

datatype formatter =
    Formatter "fmt_token list"
  | JsonFormatter "(string \<times> string) list"
  | CustomTerminalFormat

text \<open>
  What a formatter returns: a line of text, or for \<open>JsonFormatter\<close> one JSON object,
  kept as its members (\<open>json.dumps\<close> prints them sorted by key, indented by four).
\<close>

datatype rendered = Text string | JsonObject "(string \<times> string) list"

text \<open>
  \<open>JsonFormatter.formatMessage\<close>: the dictionary comprehension over \<open>fmt_dict\<close>, with
  \<open>KeyError\<close> for an attribute the record does not have.
\<close>

fun formatMessage ::
  "(string \<times> string) list \<Rightarrow> (string \<Rightarrow> string option) \<Rightarrow> py_error + (string \<times> string) list" where
  "formatMessage [] attrs = Inr []"
| "formatMessage ((fmt_key, fmt_val) # items) attrs =
     (case attrs fmt_val of
        None \<Rightarrow> Inl (KeyError fmt_val)
      | Some v \<Rightarrow>
          (case formatMessage items attrs of
             Inl e \<Rightarrow> Inl e
           | Inr rest \<Rightarrow> Inr ((fmt_key, v) # rest)))"

text \<open>
  The \<open>format\<close> method of each class. \<open>CustomTerminalFormat.format\<close> picks the format of
  the record's level and formats with a new \<open>logging.Formatter\<close>. The records here
  carry no exception and no stack information, so \<open>JsonFormatter.format\<close> adds no
  member for them.
\<close>

definition Formatter_format :: "fmt_token list \<Rightarrow> log_record \<Rightarrow> py_error + rendered" where
  "Formatter_format fmt r =
     (case percent_format fmt (record_attr (lr_asctime r) r) of
        Inl e \<Rightarrow> Inl e
      | Inr s \<Rightarrow> Inr (Text s))"

fun format_record :: "formatter \<Rightarrow> log_record \<Rightarrow> py_error + rendered" where
  "format_record (Formatter fmt) r = Formatter_format fmt r"
| "format_record (JsonFormatter fmt_dict) r =
     (case formatMessage fmt_dict (record_attr (lr_asctime_json r) r) of
        Inl e \<Rightarrow> Inl e
      | Inr message_dict \<Rightarrow> Inr (JsonObject message_dict))"
| "format_record CustomTerminalFormat r =
     (let log_format = FORMATS (lr_level r)
      in Formatter_format log_format r)"

subsection \<open>Handlers, loggers and the process\<close>

text \<open>
  A handler is an object: \<open>h_id\<close> is its identity, \<open>h_level\<close> and \<open>h_formatter\<close> are what
  \<open>setLevel\<close> and \<open>setFormatter\<close> assign. The three classes in use are
  \<open>logging.FileHandler\<close> (with the path of its file), \<open>logging.StreamHandler\<close> on the
  standard error stream, and \<open>logging.handlers.SMTPHandler\<close> with its \<open>mailhost\<close>,
  \<open>fromaddr\<close>, \<open>toaddrs\<close>, \<open>subject\<close> and \<open>credentials\<close>.
\<close>

datatype handler_kind =
    FileHandler string
  | StreamHandler
  | SMTPHandler string "string list" "string list" string "(string \<times> string) option"

record handler =
  h_id :: nat
  h_kind :: handler_kind
  h_level :: nat
  h_formatter :: "formatter option"

text \<open>
  A logger: its level, its \<open>propagate\<close> flag, its handlers, and its \<open>parent\<close>, a
  reference to another logger (none for the root logger).
\<close>

record logger =
  lg_level :: nat
  lg_propagate :: bool
  lg_handlers :: "handler list"
  lg_parent :: "string option"

text \<open>
  An attempt of the mail handler to send: where to, and the formatted record. Whether
  the mail host answers is not part of the state; an attempt is recorded as made.
\<close>

record smtp_attempt =
  sa_mailhost :: string
  sa_fromaddr :: "string list"
  sa_toaddrs :: "string list"
  sa_subject :: string
  sa_credentials :: "(string \<times> string) option"
  sa_body :: "py_error + rendered"

text \<open>
  The state of the process that the module reads and writes: the registry of named
  loggers of \<open>logging\<close>, the next unused object identity, the files (each with what has
  been written to it), the paths that cannot be opened for appending (a missing
  directory, no permission), what the stream handlers wrote to standard error, the
  attempts to send mail, and the errors \<open>Handler.handleError\<close> reported (handler,
  exception). The root logger is kept in the registry under its name \<open>root\<close>; while it
  is not there it is as \<open>logging\<close> makes it, level \<open>WARNING\<close> and no handlers.
\<close>

record world =
  loggerDict :: "string \<rightharpoonup> logger"
  next_id :: nat
  files :: "string \<rightharpoonup> rendered list"
  unopenable :: "string set"
  stderr :: "rendered list"
  smtp_attempts :: "smtp_attempt list"
  logging_errors :: "(nat \<times> py_error) list"

definition fresh_world :: world where
  "fresh_world =
     \<lparr>loggerDict = Map.empty, next_id = 0, files = Map.empty, unopenable = {},
      stderr = [], smtp_attempts = [], logging_errors = []\<rparr>"

text \<open>
  \<open>logging.getLogger(name)\<close>: the logger registered under the name, made on the first
  request. The empty name and the name \<open>'root'\<close> both give the root logger, whose
  level starts as \<open>WARNING\<close>; any other new logger starts with level \<open>NOTSET\<close>. The
  result is a reference to the logger: its key in the registry.
\<close>

definition registry_key :: "string \<Rightarrow> string" where
  "registry_key ident = (if ident = [] \<or> ident = ''root'' then ''root'' else ident)"

definition new_logger :: "string \<Rightarrow> string option \<Rightarrow> logger" where
  "new_logger key parent =
     \<lparr>lg_level = (if key = ''root'' then 30 else 0), lg_propagate = True, lg_handlers = [],
      lg_parent = parent\<rparr>"

text \<open>
  The names \<open>Manager._fixupParents\<close> tries as ancestors of a name, longest first: with
  \<open>i = name.rfind(".")\<close> to start and \<open>i = name.rfind(".", 0, i - 1)\<close> to go on, the
  prefixes \<open>name[:i]\<close> while \<open>i > 0\<close>. \<open>prefixes_before name e\<close> is that loop from the
  search for a dot among the positions below \<open>e\<close>.
\<close>

fun prefixes_before :: "string \<Rightarrow> nat \<Rightarrow> string list" where
  "prefixes_before ident 0 = []"
| "prefixes_before ident (Suc j) =
     (if j < length ident \<and> ident ! j = CHR ''.''
      then (if 0 < j then take j ident # prefixes_before ident (j - 1) else [])
      else prefixes_before ident j)"

definition candidates :: "string \<Rightarrow> string list" where
  "candidates ident = prefixes_before ident (length ident)"

text \<open>
  \<open>Manager._fixupParents\<close>: the parent of a new logger is the first of these names that
  is a logger, the root logger when none is.
\<close>

definition fixupParents :: "(string \<rightharpoonup> logger) \<Rightarrow> string \<Rightarrow> string" where
  "fixupParents registry key =
     (case find (\<lambda>c. registry c \<noteq> None) (candidates key) of
        Some parent \<Rightarrow> parent
      | None \<Rightarrow> ''root'')"

text \<open>
  \<open>Manager._fixupChildren\<close>: the loggers made earlier that tried the new name as an
  ancestor take the new logger as their parent, unless the name of their parent
  starts with the new name (the test \<open>c.parent.name[:namelen] != name\<close>). The loggers a
  place holder of the new name lists are among those that have it as a candidate, and
  for the others with that candidate the test fails, their parent being a longer
  candidate.
\<close>

definition fixupChildren :: "(string \<rightharpoonup> logger) \<Rightarrow> string \<Rightarrow> (string \<rightharpoonup> logger)" where
  "fixupChildren registry key =
     (\<lambda>c. case registry c of
            None \<Rightarrow> None
          | Some child \<Rightarrow>
              (case lg_parent child of
                 None \<Rightarrow> Some child
               | Some parent \<Rightarrow>
                   if key \<in> set (candidates c) \<and> take (length key) parent \<noteq> key
                   then Some (child\<lparr>lg_parent := Some key\<rparr>)
                   else Some child))"

definition getLogger :: "world \<Rightarrow> string \<Rightarrow> world \<times> string" where
  "getLogger w ident =
     (let key = registry_key ident
      in case loggerDict w key of
           Some _ \<Rightarrow> (w, key)
         | None \<Rightarrow>
             if key = ''root''
             then (w\<lparr>loggerDict := (loggerDict w)(key \<mapsto> new_logger key None)\<rparr>, key)
             else
               (w\<lparr>loggerDict :=
                    (fixupChildren (loggerDict w) key)
                      (key \<mapsto> new_logger key (Some (fixupParents (loggerDict w) key)))\<rparr>,
                key))"

definition update_logger :: "world \<Rightarrow> string \<Rightarrow> (logger \<Rightarrow> logger) \<Rightarrow> world" where
  "update_logger w key f =
     (case loggerDict w key of
        None \<Rightarrow> w
      | Some lg \<Rightarrow> w\<lparr>loggerDict := (loggerDict w)(key \<mapsto> f lg)\<rparr>)"

text \<open>
  \<open>Logger.addHandler\<close>: appends the handler unless that same object is in the list
  already.
\<close>

definition addHandler :: "world \<Rightarrow> string \<Rightarrow> handler \<Rightarrow> world" where
  "addHandler w key hdlr =
     update_logger w key
       (\<lambda>lg. if h_id hdlr \<in> h_id ` set (lg_handlers lg) then lg
             else lg\<lparr>lg_handlers := lg_handlers lg @ [hdlr]\<rparr>)"

text \<open>
  A new handler object, as \<open>Handler.__init__\<close> leaves it: level \<open>NOTSET\<close>, no formatter.
\<close>

definition new_handler :: "world \<Rightarrow> handler_kind \<Rightarrow> world \<times> handler" where
  "new_handler w k =
     (w\<lparr>next_id := Suc (next_id w)\<rparr>,
      \<lparr>h_id = next_id w, h_kind = k, h_level = 0, h_formatter = None\<rparr>)"

text \<open>
  \<open>logging.FileHandler(path, mode='a')\<close> opens the file at once: the file exists
  afterwards, with what it held before; a path that cannot be opened raises
  \<open>OSError\<close> and no handler is made.
\<close>

definition file_content :: "world \<Rightarrow> string \<Rightarrow> rendered list" where
  "file_content w path = (case files w path of None \<Rightarrow> [] | Some c \<Rightarrow> c)"

definition FileHandler_init :: "world \<Rightarrow> string \<Rightarrow> world \<times> (py_error + handler)" where
  "FileHandler_init w path =
     (if path \<in> unopenable w then (w, Inl (OSError path))
      else
        (let w1 = w\<lparr>files := (files w)(path \<mapsto> file_content w path)\<rparr>;
             (w2, h) = new_handler w1 (FileHandler path)
         in (w2, Inr h)))"

subsection \<open>general_logger\<close>

record config =
  logger_name :: string
  critical_email_host_address :: "string list"
  critical_email_address_list :: "string list"
  critical_email_subject :: string
  email_credentials :: "(string \<times> string) option"
  mail_host_detail :: string
  log_file_type :: string
  log_file_path :: string

text \<open>
  The default arguments. The default of \<open>log_file_path\<close> is computed once, when the
  module is imported, from the directory of the module and the date of that day; it
  is the parameter here.
\<close>

definition default_config :: "string \<Rightarrow> config" where
  "default_config path =
     \<lparr>logger_name = ''general_log'', critical_email_host_address = [],
      critical_email_address_list = [],
      critical_email_subject = ''CRITICAL level triggered'', email_credentials = None,
      mail_host_detail = ''localhost'', log_file_type = ''log'', log_file_path = path\<rparr>"

text \<open>
  The \<open>if\<close>/\<open>elif\<close> on \<open>log_file_type\<close>. It has no \<open>else\<close>: in the third case the local
  variable \<open>log_file_handler\<close> stays unbound, which is the result \<open>None\<close> here.
\<close>

definition file_branch :: "world \<Rightarrow> config \<Rightarrow> world \<times> (py_error + handler option)" where
  "file_branch w cfg =
     (if log_file_type cfg = ''log'' then
        (case FileHandler_init w (log_file_path cfg @ ''.'' @ log_file_type cfg) of
           (w1, Inl e) \<Rightarrow> (w1, Inl e)
         | (w1, Inr h) \<Rightarrow>
             (let h1 = h\<lparr>h_level := 20\<rparr>;
                  h2 = h1\<lparr>h_formatter := Some (Formatter logfile_format)\<rparr>
              in (w1, Inr (Some h2))))
      else if log_file_type cfg = ''json'' then
        (case FileHandler_init w (log_file_path cfg @ ''.'' @ log_file_type cfg) of
           (w1, Inl e) \<Rightarrow> (w1, Inl e)
         | (w1, Inr h) \<Rightarrow>
             (let h1 = h\<lparr>h_level := 20\<rparr>;
                  h2 = h1\<lparr>h_formatter := Some (JsonFormatter json_fmt_dict)\<rparr>
              in (w1, Inr (Some h2))))
      else (w, Inr None))"

text \<open>
  The function. It returns a reference to the logger. The last three statements before
  the \<open>return\<close> read \<open>log_file_handler\<close> first: where it is unbound the call raises
  \<open>UnboundLocalError\<close> there, before any handler is added.
\<close>

definition general_logger :: "world \<Rightarrow> config \<Rightarrow> world \<times> (py_error + string)" where
  "general_logger w cfg =
     (let (w1, general_use_log) = getLogger w (logger_name cfg);
          w2 = update_logger w1 general_use_log (\<lambda>lg. lg\<lparr>lg_level := 10\<rparr>);
          w3 = update_logger w2 general_use_log (\<lambda>lg. lg\<lparr>lg_propagate := True\<rparr>)
      in case file_branch w3 cfg of
           (w4, Inl e) \<Rightarrow> (w4, Inl e)
         | (w4, Inr log_file_handler) \<Rightarrow>
             (let (w5, th) = new_handler w4 StreamHandler;
                  th1 = th\<lparr>h_level := 10\<rparr>;
                  terminal_handler = th1\<lparr>h_formatter := Some CustomTerminalFormat\<rparr>;
                  (w6, eh) =
                    new_handler w5
                      (SMTPHandler (mail_host_detail cfg) (critical_email_host_address cfg)
                         (critical_email_address_list cfg) (critical_email_subject cfg)
                         (email_credentials cfg));
                  critical_email_handler = eh\<lparr>h_level := 50\<rparr>
              in case log_file_handler of
                   None \<Rightarrow> (w6, Inl (UnboundLocalError ''log_file_handler''))
                 | Some fh \<Rightarrow>
                     (let w7 = addHandler w6 general_use_log fh;
                          w8 = addHandler w7 general_use_log terminal_handler;
                          w9 = addHandler w8 general_use_log critical_email_handler
                      in (w9, Inr general_use_log))))"

subsection \<open>Emitting a record\<close>

text \<open>
  \<open>Handler.handleError\<close>: the exception raised while a handler emits is reported on
  standard error and swallowed; the record is lost for that handler.
\<close>

definition handleError :: "world \<Rightarrow> handler \<Rightarrow> py_error \<Rightarrow> world" where
  "handleError w h e = w\<lparr>logging_errors := logging_errors w @ [(h_id h, e)]\<rparr>"

text \<open>\<open>Handler.format\<close>: the handler's formatter, or the default one.\<close>

definition Handler_format :: "handler \<Rightarrow> log_record \<Rightarrow> py_error + rendered" where
  "Handler_format h r =
     (case h_formatter h of
        Some fmt \<Rightarrow> format_record fmt r
      | None \<Rightarrow> Formatter_format default_format r)"

text \<open>
  \<open>emit\<close> of the three classes. The file and stream handlers format and then write;
  the mail handler opens the connection to the mail host first and formats the
  record for the body after that.
\<close>

definition emit :: "world \<Rightarrow> handler \<Rightarrow> log_record \<Rightarrow> world" where
  "emit w h r =
     (case h_kind h of
        FileHandler path \<Rightarrow>
          (case Handler_format h r of
             Inl e \<Rightarrow> handleError w h e
           | Inr msg \<Rightarrow> w\<lparr>files := (files w)(path \<mapsto> file_content w path @ [msg])\<rparr>)
      | StreamHandler \<Rightarrow>
          (case Handler_format h r of
             Inl e \<Rightarrow> handleError w h e
           | Inr msg \<Rightarrow> w\<lparr>stderr := stderr w @ [msg]\<rparr>)
      | SMTPHandler mailhost fromaddr toaddrs subject credentials \<Rightarrow>
          (let body = Handler_format h r;
               w1 = w\<lparr>smtp_attempts := smtp_attempts w @
                      [\<lparr>sa_mailhost = mailhost, sa_fromaddr = fromaddr, sa_toaddrs = toaddrs,
                        sa_subject = subject, sa_credentials = credentials,
                        sa_body = body\<rparr>]\<rparr>
           in case body of Inl e \<Rightarrow> handleError w1 h e | Inr _ \<Rightarrow> w1))"

text \<open>
  The inner loop of \<open>Logger.callHandlers\<close>, over the handlers of one logger after the
  other: each handler whose level the record reaches handles it, in the order the
  handlers were added.
\<close>

fun callHandlers :: "world \<Rightarrow> handler list \<Rightarrow> log_record \<Rightarrow> world" where
  "callHandlers w [] r = w"
| "callHandlers w (hdlr # hs) r =
     callHandlers (if h_level hdlr \<le> levelno (lr_level r) then emit w hdlr r else w) hs r"

text \<open>
  The logger behind a reference, and the handlers attached to it. The root logger
  always exists.
\<close>

definition logger_at :: "world \<Rightarrow> string \<Rightarrow> logger option" where
  "logger_at w key =
     (case loggerDict w key of
        Some lg \<Rightarrow> Some lg
      | None \<Rightarrow> if key = ''root'' then Some (new_logger ''root'' None) else None)"

definition handlers_of :: "world \<Rightarrow> string \<Rightarrow> handler list" where
  "handlers_of w key = (case loggerDict w key of None \<Rightarrow> [] | Some lg \<Rightarrow> lg_handlers lg)"

text \<open>
  A logger, its parent, the parent of that, and so on up to the root logger: the
  loggers that \<open>while c: ... c = c.parent\<close> visits. The first argument bounds the number
  of steps; every step but the one to the root logger goes to a shorter name, so one
  more than the length of the name is enough (\<open>ancestry_enough\<close> below).
\<close>

fun ancestry :: "nat \<Rightarrow> world \<Rightarrow> string \<Rightarrow> string list" where
  "ancestry 0 w key = []"
| "ancestry (Suc n) w key =
     (case logger_at w key of
        None \<Rightarrow> []
      | Some lg \<Rightarrow>
          key # (case lg_parent lg of None \<Rightarrow> [] | Some parent \<Rightarrow> ancestry n w parent))"

text \<open>
  \<open>Logger.getEffectiveLevel\<close>: the first level along the way up that is not \<open>NOTSET\<close>,
  and \<open>NOTSET\<close> when there is none.
\<close>

fun getEffectiveLevel :: "world \<Rightarrow> string list \<Rightarrow> nat" where
  "getEffectiveLevel w [] = 0"
| "getEffectiveLevel w (key # up) =
     (case logger_at w key of
        None \<Rightarrow> 0
      | Some lg \<Rightarrow> if lg_level lg \<noteq> 0 then lg_level lg else getEffectiveLevel w up)"

text \<open>
  The handlers \<open>Logger.callHandlers\<close> meets: those of the logger, then, as long as
  \<open>propagate\<close> is set, those of its parent, and so on.
\<close>

fun propagated :: "world \<Rightarrow> string list \<Rightarrow> handler list" where
  "propagated w [] = []"
| "propagated w (key # up) =
     (case logger_at w key of
        None \<Rightarrow> []
      | Some lg \<Rightarrow> lg_handlers lg @ (if lg_propagate lg then propagated w up else []))"

text \<open>
  \<open>Logger.callHandlers\<close>: the handlers met handle the record; when there is no handler
  at all on the way, the handler of last resort writes the bare message of a record
  at \<open>WARNING\<close> or above to standard error. Emitting changes no logger
  (\<open>emit_keeps_registry\<close> below), so the handlers can be collected before the first of
  them runs.
\<close>

definition Logger_callHandlers :: "world \<Rightarrow> string \<Rightarrow> log_record \<Rightarrow> world" where
  "Logger_callHandlers w key r =
     (let found = propagated w (ancestry (Suc (length key)) w key)
      in if found = []
         then (if 30 \<le> levelno (lr_level r)
               then w\<lparr>stderr := stderr w @ [Text (lr_message r)]\<rparr>
               else w)
         else callHandlers w found r)"

text \<open>
  A logging call on the logger with the given reference: the record takes the
  logger's name, and is handled when the effective level of the logger lets it
  through. The switches \<open>logging.disable\<close> and \<open>Logger.disabled\<close> and the filters of
  loggers and handlers, none of which this module sets, are as \<open>logging\<close> starts them:
  off and empty.
\<close>

definition Logger_log :: "world \<Rightarrow> string \<Rightarrow> log_record \<Rightarrow> world" where
  "Logger_log w key r =
     (case loggerDict w key of
        None \<Rightarrow> w
      | Some lg \<Rightarrow>
          if getEffectiveLevel w (ancestry (Suc (length key)) w key) \<le> levelno (lr_level r)
          then Logger_callHandlers w key (r\<lparr>lr_name := key\<rparr>)
          else w)"

text \<open>
  A plain logging call (no \<open>extra\<close>) with the given severity and message, and one call
  of each severity in turn.
\<close>

definition plain_record :: "severity \<Rightarrow> string \<Rightarrow> log_record" where
  "plain_record sev msg =
     \<lparr>lr_name = [], lr_level = sev, lr_message = msg,
      lr_asctime = ''2024-01-31 09:30:00'', lr_asctime_json = ''2024-01-31T09:30:00.000Z'',
      lr_processName = ''MainProcess'', lr_process = ''4242'',
      lr_threadName = ''MainThread'', lr_thread = ''1'', lr_extra = []\<rparr>"

definition five_events :: "world \<Rightarrow> string \<Rightarrow> world" where
  "five_events w key =
     foldl (\<lambda>w' sev. Logger_log w' key (plain_record sev ''event''))
       w [DEBUG, INFO, WARNING, ERROR, CRITICAL]"

text \<open>
  Object identities are handed out in increasing order, so every handler attached to
  a logger has an identity below the next unused one.
\<close>

definition ids_in_use :: "world \<Rightarrow> bool" where
  "ids_in_use w =
     (\<forall>key lg. loggerDict w key = Some lg \<longrightarrow> (\<forall>h \<in> set (lg_handlers lg). h_id h < next_id w))"

text \<open>
  What the registry keeps true of the parents: no logger has the empty name, the root
  logger has no parent, and the parent of any other logger is the root logger or a
  logger with a shorter name.
\<close>

definition parents_wf :: "world \<Rightarrow> bool" where
  "parents_wf w =
     (\<forall>key lg. loggerDict w key = Some lg \<longrightarrow>
        key \<noteq> [] \<and>
        (if key = ''root'' then lg_parent lg = None
         else \<exists>parent. lg_parent lg = Some parent
                \<and> (parent = ''root'' \<or> length parent < length key)))"

text \<open>
  The three handlers one call of \<open>general_logger\<close> builds when it reaches its end, the
  first of them with identity \<open>n\<close>: the file handler at \<open>INFO\<close>, the terminal handler at
  \<open>DEBUG\<close>, the mail handler at \<open>CRITICAL\<close>.
\<close>

definition file_formatter :: "string \<Rightarrow> formatter" where
  "file_formatter file_type =
     (if file_type = ''log'' then Formatter logfile_format else JsonFormatter json_fmt_dict)"

definition log_file :: "config \<Rightarrow> string" where
  "log_file cfg = log_file_path cfg @ ''.'' @ log_file_type cfg"

definition built_handlers :: "config \<Rightarrow> nat \<Rightarrow> handler list" where
  "built_handlers cfg n =
     [\<lparr>h_id = n, h_kind = FileHandler (log_file cfg), h_level = 20,
       h_formatter = Some (file_formatter (log_file_type cfg))\<rparr>,
      \<lparr>h_id = Suc n, h_kind = StreamHandler, h_level = 10,
       h_formatter = Some CustomTerminalFormat\<rparr>,
      \<lparr>h_id = Suc (Suc n),
       h_kind =
         SMTPHandler (mail_host_detail cfg) (critical_email_host_address cfg)
           (critical_email_address_list cfg) (critical_email_subject cfg)
           (email_credentials cfg),
       h_level = 50, h_formatter = None\<rparr>]"

section \<open>Properties of SQLBuilder\<close>

subsection \<open>Auxiliary facts\<close>

lemma selection_loop_eq:
  "selection_loop t xs = t @ concat (map (\<lambda>a. a @ '', '') xs)"
  by (induction xs arbitrary: t) simp_all

lemma join_butlast_last:
  "xs \<noteq> [] \<Longrightarrow> concat (map (\<lambda>a. a @ sep) (butlast xs)) @ last xs = spec_join sep xs"
  by (induction sep xs rule: spec_join.induct) simp_all

lemma count_spec_join:
  "xs \<noteq> [] \<Longrightarrow>
   count_list (spec_join '', '' xs) (CHR '','') =
     (length xs - 1) + count_list (concat xs) (CHR '','')"
  by (induction "'', ''" xs rule: spec_join.induct) simp_all

lemma col_selection_nonempty:
  "args \<noteq> [] \<Longrightarrow>
   col_selection self args =
     (self\<lparr>selection_args := Some args, selection_text := Some (spec_select_form args)\<rparr>,
      Inr ())"
  by (cases args)
     (simp_all add: col_selection_def index_last_def spec_select_form_def selection_loop_eq
        join_butlast_last [symmetric] del: butlast.simps last.simps)

lemma where_loop_eq:
  "where_loop t items = t @ concat (map segment (filter recognised items))"
  by (induction t items rule: where_loop.induct)
     (simp_all add: recognised_def segment_def connector_def is_and_def is_or_def)

lemma where_clause_eq:
  "where_clause self first_arg kwargs =
     (self\<lparr>where_kwargs := Some kwargs,
           where_text :=
             Some (''WHERE '' @ first_arg @ '' '' @
                   concat (map segment (filter recognised kwargs)))\<rparr>,
      Inr ())"
  by (simp add: where_clause_def where_loop_eq)

lemma segments_spaced:
  "'' '' @ concat (map segment entries) =
   concat (map (\<lambda>entry. '' '' @ connector (fst entry) @ '' '' @ snd entry) entries) @ '' ''"
  by (induction entries) (simp_all add: segment_def)

subsection \<open>The claims\<close>

text \<open>
  C1. For every non-empty sequence of column names, \<open>col_selection\<close> returns and leaves
  in \<open>selection_text\<close> the string \<open>SELECT col1, col2, ..., colN\<close>: it starts with
  \<open>SELECT \<close>, every column but the last is followed by a comma and a space, the last
  column ends the string, and the commas in it are \<open>len(columns) - 1\<close> separators
  besides those the column names themselves contain. On the five columns of the
  module's own call the string is
  \<open>SELECT DATETIME, ARG_WORKS, LOCATION, CHECK2, ARG_WORKS\<close>.
\<close>

theorem col_selection_select_form:
  assumes "args \<noteq> []"
  shows "col_selection self args =
           (self\<lparr>selection_args := Some args,
                 selection_text := Some (spec_select_form args)\<rparr>, Inr ())
         \<and> take 7 (spec_select_form args) = ''SELECT ''
         \<and> spec_select_form args =
             ''SELECT '' @ concat (map (\<lambda>c. c @ '', '') (butlast args)) @ last args
         \<and> count_list (spec_select_form args) (CHR '','') =
             (length args - 1) + count_list (concat args) (CHR '','')"
proof -
  have shape: "spec_select_form args =
      ''SELECT '' @ concat (map (\<lambda>c. c @ '', '') (butlast args)) @ last args"
    using assms by (simp add: spec_select_form_def join_butlast_last)
  have commas: "count_list (spec_select_form args) (CHR '','') =
      (length args - 1) + count_list (concat args) (CHR '','')"
    using assms by (simp add: spec_select_form_def count_spec_join)
  have start: "take 7 (spec_select_form args) = ''SELECT ''"
    by (simp add: spec_select_form_def)
  from col_selection_nonempty [OF assms] shape commas start show ?thesis
    by blast
qed

theorem col_selection_select_form_witness:
  "[''DATETIME'', ''ARG_WORKS'', ''LOCATION'', ''CHECK2'', ''ARG_WORKS''] \<noteq> ([] :: string list)
   \<and> col_selection init [''DATETIME'', ''ARG_WORKS'', ''LOCATION'', ''CHECK2'', ''ARG_WORKS''] =
       (\<lparr>selection_args =
            Some [''DATETIME'', ''ARG_WORKS'', ''LOCATION'', ''CHECK2'', ''ARG_WORKS''],
         selection_text = Some ''SELECT DATETIME, ARG_WORKS, LOCATION, CHECK2, ARG_WORKS'',
         where_kwargs = None, where_text = None\<rparr>, Inr ())
   \<and> count_list ''SELECT DATETIME, ARG_WORKS, LOCATION, CHECK2, ARG_WORKS'' (CHR '','') = 4"
  using col_selection_select_form
    [of "[''DATETIME'', ''ARG_WORKS'', ''LOCATION'', ''CHECK2'', ''ARG_WORKS'']" init]
  by (simp add: spec_select_form_def init_def)

text \<open>
  C2. For every base predicate, empty or not, and every ordered mapping whose keys
  are all AND-markers or OR-markers in any mix of upper and lower case,
  \<open>where_clause\<close> returns and leaves in \<open>where_text\<close> the string that starts with
  \<open>WHERE \<close> and the base predicate and goes on, in the order of the mapping, with one
  connector and one predicate per entry: the form of the specification followed by
  one space. The connector is \<open>AND\<close> for an AND-marker and \<open>OR\<close> for an OR-marker.
\<close>

theorem where_clause_form:
  assumes "\<forall>entry \<in> set kwargs. recognised entry"
  shows "where_clause self first_arg kwargs =
           (self\<lparr>where_kwargs := Some kwargs,
                 where_text := Some (spec_where_form first_arg kwargs @ '' '')\<rparr>, Inr ())
         \<and> take 6 (spec_where_form first_arg kwargs) = ''WHERE ''
         \<and> (\<forall>entry \<in> set kwargs.
               connector (fst entry) = (if is_and (fst entry) then ''AND'' else ''OR'')
               \<and> (is_and (fst entry) \<noteq> is_or (fst entry)))"
proof -
  from assms have all: "filter recognised kwargs = kwargs"
    by (simp add: filter_id_conv)
  have "''WHERE '' @ first_arg @ '' '' @ concat (map segment kwargs) =
        spec_where_form first_arg kwargs @ '' ''"
    using segments_spaced [of kwargs] by (simp add: spec_where_form_def)
  with all have result: "where_clause self first_arg kwargs =
      (self\<lparr>where_kwargs := Some kwargs,
            where_text := Some (spec_where_form first_arg kwargs @ '' '')\<rparr>, Inr ())"
    by (simp add: where_clause_eq)
  have start: "take 6 (spec_where_form first_arg kwargs) = ''WHERE ''"
    by (simp add: spec_where_form_def)
  have markers: "\<forall>entry \<in> set kwargs.
      connector (fst entry) = (if is_and (fst entry) then ''AND'' else ''OR'')
      \<and> (is_and (fst entry) \<noteq> is_or (fst entry))"
    using assms by (auto simp: recognised_def connector_def is_and_def is_or_def)
  from result start markers show ?thesis
    by blast
qed

theorem where_clause_form_witness:
  "recognised (''w_and'', ''a = 1'') \<and> recognised (''W_Or'', ''b = 2'')
   \<and> recognised (''W_AND'', ''c = 3'')
   \<and> where_clause init [] [(''w_and'', ''a = 1''), (''W_Or'', ''b = 2''), (''W_AND'', ''c = 3'')] =
       (\<lparr>selection_args = None, selection_text = None,
         where_kwargs = Some [(''w_and'', ''a = 1''), (''W_Or'', ''b = 2''), (''W_AND'', ''c = 3'')],
         where_text = Some ''WHERE  AND a = 1 OR b = 2 AND c = 3 ''\<rparr>, Inr ())"
proof -
  have h: "\<forall>entry \<in> set [(''w_and'', ''a = 1''), (''W_Or'', ''b = 2''), (''W_AND'', ''c = 3'')].
      recognised entry"
    by (simp add: recognised_def is_and_def is_or_def lower_def lower_char_def)
  from where_clause_form [OF h, of init "[]"] h show ?thesis
    by (simp add: spec_where_form_def connector_def is_and_def is_or_def lower_def
        lower_char_def init_def)
qed

text \<open>
  C3. As stated (the result of the module's own call equals, character for character,
  \<open>WHERE MATER = 'Howdy Pardner' AND fog = 'low' OR LOCATION = 1\<close>) the claim fails:
  the result has one more character.
\<close>

theorem where_clause_example_counterexample:
  "where_text (fst (where_clause init howdy [(''w_and'', fog), (''w_or'', ''LOCATION = 1'')]))
   \<noteq> Some ''WHERE MATER = 'Howdy Pardner' AND fog = 'low' OR LOCATION = 1''"
  by (simp add: where_clause_def howdy_def fog_def lower_def lower_char_def)

text \<open>
  C3, amended. The module's own call, base predicate \<open>MATER = 'Howdy Pardner'\<close> with
  the AND-marker for \<open>fog = 'low'\<close> and the OR-marker for \<open>LOCATION = 1\<close>, returns and
  leaves in \<open>where_text\<close> exactly the string
  \<open>WHERE MATER = 'Howdy Pardner' AND fog = 'low' OR LOCATION = 1\<close> followed by one
  space, with nothing before it and nothing after that space.
\<close>

theorem where_clause_example:
  "where_clause self howdy [(''w_and'', fog), (''w_or'', ''LOCATION = 1'')] =
     (self\<lparr>where_kwargs := Some [(''w_and'', fog), (''w_or'', ''LOCATION = 1'')],
           where_text :=
             Some (''WHERE MATER = 'Howdy Pardner' AND fog = 'low' OR LOCATION = 1'' @ '' '')\<rparr>,
      Inr ())"
  by (simp add: where_clause_def howdy_def fog_def lower_def lower_char_def)

text \<open>The object \<open>sqlbuild\<close> as the module leaves it after its two calls.\<close>

lemma sqlbuild_state:
  "sqlbuild =
     \<lparr>selection_args =
        Some [''DATETIME'', ''ARG_WORKS'', ''LOCATION'', ''CHECK2'', ''ARG_WORKS''],
      selection_text = Some ''SELECT DATETIME, ARG_WORKS, LOCATION, CHECK2, ARG_WORKS'',
      where_kwargs = Some [(''w_and'', fog), (''w_or'', ''LOCATION = 1'')],
      where_text =
        Some (''WHERE MATER = 'Howdy Pardner' AND fog = 'low' OR LOCATION = 1'' @ '' '')\<rparr>"
  by (simp add: sqlbuild_def where_clause_def col_selection_def index_last_def init_def
      howdy_def fog_def lower_def lower_char_def)

text \<open>
  C5. \<open>col_selection\<close> with no column raises \<open>IndexError\<close>; what it leaves in
  \<open>selection_text\<close> is the bare \<open>SELECT \<close>.
\<close>

theorem col_selection_empty:
  "col_selection self [] =
     (self\<lparr>selection_args := Some [], selection_text := Some ''SELECT ''\<rparr>, Inl IndexError)"
  by (simp add: col_selection_def index_last_def)

text \<open>
  C6. An entry whose key is neither an AND-marker nor an OR-marker is passed over
  without an error: \<open>where_clause\<close> returns, the text it builds is the text it builds
  from the recognised entries alone, and taking one unrecognised entry out of the
  mapping, wherever it stands, leaves the text as it is.
\<close>

theorem where_clause_ignores_unrecognised:
  "snd (where_clause self first_arg kwargs) = Inr ()
   \<and> where_text (fst (where_clause self first_arg kwargs)) =
       where_text (fst (where_clause self first_arg (filter recognised kwargs)))
   \<and> where_text (fst (where_clause self first_arg kwargs)) =
       Some (''WHERE '' @ first_arg @ '' '' @ concat (map segment (filter recognised kwargs)))
   \<and> (\<not> recognised entry \<longrightarrow>
        where_text (fst (where_clause self first_arg (before @ entry # after))) =
        where_text (fst (where_clause self first_arg (before @ after))))"
  by (simp add: where_clause_eq)

theorem where_clause_ignores_unrecognised_witness:
  "\<not> recognised (''w_xor'', ''b = 2'')
   \<and> snd (where_clause init ''x = 0''
            [(''w_and'', ''a = 1''), (''w_xor'', ''b = 2''), (''W_OR'', ''c = 3'')]) = Inr ()
   \<and> where_text (fst (where_clause init ''x = 0''
            [(''w_and'', ''a = 1''), (''w_xor'', ''b = 2''), (''W_OR'', ''c = 3'')])) =
       Some ''WHERE x = 0 AND a = 1 OR c = 3 ''
   \<and> where_text (fst (where_clause init ''x = 0''
            [(''w_and'', ''a = 1''), (''W_OR'', ''c = 3'')])) =
       Some ''WHERE x = 0 AND a = 1 OR c = 3 ''"
proof -
  have h: "\<not> recognised (''w_xor'', ''b = 2'')"
    by (simp add: recognised_def is_and_def is_or_def lower_def lower_char_def)
  note inst = where_clause_ignores_unrecognised
    [of init "''x = 0''" "[(''w_and'', ''a = 1''), (''w_xor'', ''b = 2''), (''W_OR'', ''c = 3'')]"
        "(''w_xor'', ''b = 2'')" "[(''w_and'', ''a = 1'')]" "[(''W_OR'', ''c = 3'')]"]
  from inst have returns: "snd (where_clause init ''x = 0''
        [(''w_and'', ''a = 1''), (''w_xor'', ''b = 2''), (''W_OR'', ''c = 3'')]) = Inr ()"
    by (rule conjunct1)
  from inst h have "where_text (fst (where_clause init ''x = 0''
        ([(''w_and'', ''a = 1'')] @ (''w_xor'', ''b = 2'') # [(''W_OR'', ''c = 3'')]))) =
      where_text (fst (where_clause init ''x = 0''
        ([(''w_and'', ''a = 1'')] @ [(''W_OR'', ''c = 3'')])))"
    by blast
  then have same: "where_text (fst (where_clause init ''x = 0''
        [(''w_and'', ''a = 1''), (''W_OR'', ''c = 3'')])) =
      where_text (fst (where_clause init ''x = 0''
        [(''w_and'', ''a = 1''), (''w_xor'', ''b = 2''), (''W_OR'', ''c = 3'')]))"
    by (simp only: append.simps)
  have full: "where_text (fst (where_clause init ''x = 0''
        [(''w_and'', ''a = 1''), (''w_xor'', ''b = 2''), (''W_OR'', ''c = 3'')])) =
      Some ''WHERE x = 0 AND a = 1 OR c = 3 ''"
    by (simp add: where_clause_def lower_def lower_char_def)
  from same full have short: "where_text (fst (where_clause init ''x = 0''
        [(''w_and'', ''a = 1''), (''W_OR'', ''c = 3'')])) = Some ''WHERE x = 0 AND a = 1 OR c = 3 ''"
    by (rule trans)
  from h returns full short show ?thesis
    by blast
qed

section \<open>Properties of the timestamp accessors\<close>

text \<open>
  C4. The claim is that \<open>CREATED_TIME\<close> and \<open>MODIFIED_TIME\<close> return the date of an
  existing path as \<open>YYYY-MM-DD\<close>. The module imports neither \<open>time\<close> nor \<open>os\<close>, so on
  every path, existing or not, and on every platform, both accessors raise
  \<open>NameError\<close> for \<open>time\<close> before any file time is read.
\<close>

theorem timestamp_accessors_name_error:
  "CREATED_TIME pf a = Inl (NameError ''time'')
   \<and> MODIFIED_TIME pf a = Inl (NameError ''time'')"
  by (simp add: CREATED_TIME_def MODIFIED_TIME_def and_then_def load_global_def
      module_globals_def builtins_used_def)

text \<open>
  The same at a path that exists: the platform has the file times, the accessors do
  not get to them.
\<close>

lemma timestamp_accessors_existing_file:
  "getctime sample_platform ''/tmp/report.txt'' = Inr 0
   \<and> getmtime sample_platform ''/tmp/report.txt'' = Inr 0
   \<and> CREATED_TIME sample_platform ''/tmp/report.txt'' = Inl (NameError ''time'')
   \<and> MODIFIED_TIME sample_platform ''/tmp/report.txt'' = Inl (NameError ''time'')"
  by (simp add: sample_platform_def CREATED_TIME_def MODIFIED_TIME_def and_then_def
      load_global_def module_globals_def builtins_used_def)

section \<open>Properties of general_logger\<close>

subsection \<open>The registry\<close>

text \<open>
  \<open>getLogger\<close> leaves the handlers of every logger as they were and keeps the parents
  well formed: a candidate is a proper prefix of the name, so a parent that is not the
  root logger has a shorter name.
\<close>

lemma prefixes_before_shorter:
  "p \<in> set (prefixes_before s e) \<Longrightarrow> e \<le> length s \<Longrightarrow> length p < e"
proof (induction s e rule: prefixes_before.induct)
  case (1 s)
  then show ?case by simp
next
  case (2 s j)
  then show ?case
    by (fastforce split: if_splits)
qed

lemma candidates_shorter: "p \<in> set (candidates key) \<Longrightarrow> length p < length key"
  using prefixes_before_shorter [of p key "length key"] by (simp add: candidates_def)

lemma fixupParents_cases:
  "fixupParents reg key = ''root'' \<or> length (fixupParents reg key) < length key"
proof (cases "find (\<lambda>c. reg c \<noteq> None) (candidates key)")
  case None
  then show ?thesis by (simp add: fixupParents_def)
next
  case (Some p)
  then have "p \<in> set (candidates key)"
    by (auto simp: find_Some_iff)
  with Some show ?thesis
    by (simp add: fixupParents_def candidates_shorter)
qed

lemma fixupChildren_None: "(fixupChildren reg key c = None) = (reg c = None)"
  by (simp add: fixupChildren_def split: option.splits)

lemma fixupChildren_Some:
  assumes "fixupChildren reg key c = Some lg'"
  obtains lg where "reg c = Some lg" and "lg_handlers lg' = lg_handlers lg"
    and "lg_level lg' = lg_level lg" and "lg_propagate lg' = lg_propagate lg"
    and "lg_parent lg' = lg_parent lg \<or> (lg_parent lg \<noteq> None \<and> lg_parent lg' = Some key \<and> key \<in> set (candidates c))"
  using assms by (auto simp: fixupChildren_def split: option.splits if_splits)

lemma registry_key_nonempty [simp]: "registry_key n \<noteq> []"
  by (simp add: registry_key_def)

lemma getLogger_key [simp]: "snd (getLogger w n) = registry_key n"
  by (simp add: getLogger_def Let_def split: option.splits)

lemma getLogger_fields [simp]:
  "next_id (fst (getLogger w n)) = next_id w"
  "files (fst (getLogger w n)) = files w"
  "unopenable (fst (getLogger w n)) = unopenable w"
  "stderr (fst (getLogger w n)) = stderr w"
  "smtp_attempts (fst (getLogger w n)) = smtp_attempts w"
  "logging_errors (fst (getLogger w n)) = logging_errors w"
  by (simp_all add: getLogger_def Let_def split: option.splits)

lemma fixupChildren_handlers:
  "(case fixupChildren reg key c of None \<Rightarrow> [] | Some lg \<Rightarrow> lg_handlers lg) =
   (case reg c of None \<Rightarrow> [] | Some lg \<Rightarrow> lg_handlers lg)"
  by (simp add: fixupChildren_def split: option.splits)

lemma getLogger_handlers_of [simp]:
  "handlers_of (fst (getLogger w n)) k = handlers_of w k"
proof (cases "loggerDict w (registry_key n)")
  case (Some lg)
  then show ?thesis by (simp add: getLogger_def)
next
  case None
  then show ?thesis
    by (cases "k = registry_key n")
       (auto simp: getLogger_def Let_def handlers_of_def new_logger_def
          fixupChildren_handlers)
qed

lemma getLogger_exists:
  "\<exists>lg. loggerDict (fst (getLogger w n)) (registry_key n) = Some lg"
  by (simp add: getLogger_def Let_def split: option.splits)

lemma getLogger_dom:
  "loggerDict w k = Some lg \<Longrightarrow> \<exists>lg'. loggerDict (fst (getLogger w n)) k = Some lg'"
  by (cases "fixupChildren (loggerDict w) (registry_key n) k")
     (auto simp: getLogger_def Let_def fixupChildren_None split: option.splits)

lemma ids_in_use_handlers_of:
  "ids_in_use w \<Longrightarrow> h \<in> set (handlers_of w key) \<Longrightarrow> h_id h < next_id w"
  by (cases "loggerDict w key") (auto simp: ids_in_use_def handlers_of_def)

lemma ids_in_use_iff:
  "ids_in_use w = (\<forall>key. \<forall>h \<in> set (handlers_of w key). h_id h < next_id w)"
proof
  assume "ids_in_use w"
  then show "\<forall>key. \<forall>h \<in> set (handlers_of w key). h_id h < next_id w"
    by (blast intro: ids_in_use_handlers_of)
next
  assume all: "\<forall>key. \<forall>h \<in> set (handlers_of w key). h_id h < next_id w"
  show "ids_in_use w"
    unfolding ids_in_use_def
  proof (intro allI impI ballI)
    fix key lg h
    assume "loggerDict w key = Some lg" and "h \<in> set (lg_handlers lg)"
    then have "h \<in> set (handlers_of w key)"
      by (simp add: handlers_of_def)
    with all show "h_id h < next_id w" by blast
  qed
qed

lemma ids_in_use_getLogger: "ids_in_use w \<Longrightarrow> ids_in_use (fst (getLogger w n))"
  by (simp add: ids_in_use_iff)

lemma ids_in_use_fresh: "ids_in_use fresh_world"
  by (simp add: ids_in_use_def fresh_world_def)

lemma parents_wf_fresh: "parents_wf fresh_world"
  by (simp add: parents_wf_def fresh_world_def)

lemma parents_wf_getLogger:
  assumes "parents_wf w"
  shows "parents_wf (fst (getLogger w n))"
proof (cases "loggerDict w (registry_key n)")
  case (Some lg)
  with assms show ?thesis by (simp add: getLogger_def)
next
  case None
  show ?thesis
  proof (cases "registry_key n = ''root''")
    case True
    with None assms show ?thesis
      by (auto simp: getLogger_def Let_def parents_wf_def new_logger_def)
  next
    case False
    let ?key = "registry_key n"
    have new: "loggerDict (fst (getLogger w n)) =
        (fixupChildren (loggerDict w) ?key)
          (?key \<mapsto> new_logger ?key (Some (fixupParents (loggerDict w) ?key)))"
      using None False by (simp add: getLogger_def Let_def)
    show ?thesis
      unfolding parents_wf_def
    proof (intro allI impI)
      fix k lg'
      assume at: "loggerDict (fst (getLogger w n)) k = Some lg'"
      show "k \<noteq> [] \<and> (if k = ''root'' then lg_parent lg' = None
            else \<exists>parent. lg_parent lg' = Some parent
                   \<and> (parent = ''root'' \<or> length parent < length k))"
      proof (cases "k = ?key")
        case True
        with at new have "lg_parent lg' = Some (fixupParents (loggerDict w) ?key)"
          by (auto simp: new_logger_def)
        with True False fixupParents_cases [of "loggerDict w" ?key] show ?thesis
          by auto
      next
        case other: False
        with at new have "fixupChildren (loggerDict w) ?key k = Some lg'"
          by simp
        then obtain lg where old: "loggerDict w k = Some lg"
          and par: "lg_parent lg' = lg_parent lg
             \<or> (lg_parent lg \<noteq> None \<and> lg_parent lg' = Some ?key \<and> ?key \<in> set (candidates k))"
          by (rule fixupChildren_Some)
        from assms old have wf: "k \<noteq> [] \<and> (if k = ''root'' then lg_parent lg = None
            else \<exists>parent. lg_parent lg = Some parent
                   \<and> (parent = ''root'' \<or> length parent < length k))"
          by (simp add: parents_wf_def)
        from par show ?thesis
        proof
          assume "lg_parent lg' = lg_parent lg"
          with wf show ?thesis by simp
        next
          assume re: "lg_parent lg \<noteq> None \<and> lg_parent lg' = Some ?key \<and> ?key \<in> set (candidates k)"
          with wf have "k \<noteq> ''root''" by auto
          with re candidates_shorter [of ?key k] show ?thesis by auto
        qed
      qed
    qed
  qed
qed

subsection \<open>What one call does\<close>

text \<open>
  The three ways a call ends: it returns the logger with three more handlers, it
  raises \<open>UnboundLocalError\<close> for a file type that is neither \<open>log\<close> nor \<open>json\<close>, or it
  raises \<open>OSError\<close> when the log file cannot be opened.
\<close>

lemma getLogger_pair:
  "getLogger w n = (fst (getLogger w n), registry_key n)"
  by (simp add: prod_eq_iff)

lemma getLogger_own_handlers:
  assumes "loggerDict (fst (getLogger w n)) (registry_key n) = Some lg0"
  shows "lg_handlers lg0 = handlers_of w (registry_key n)"
proof -
  from assms have "handlers_of (fst (getLogger w n)) (registry_key n) = lg_handlers lg0"
    by (simp add: handlers_of_def)
  then show ?thesis by simp
qed

lemma general_logger_returns:
  assumes inv: "ids_in_use w"
    and ty: "log_file_type cfg = ''log'' \<or> log_file_type cfg = ''json''"
    and op: "log_file cfg \<notin> unopenable w"
  shows "\<exists>lg0. loggerDict (fst (getLogger w (logger_name cfg))) (registry_key (logger_name cfg)) = Some lg0
    \<and> general_logger w cfg =
    ((fst (getLogger w (logger_name cfg)))
       \<lparr>loggerDict := (loggerDict (fst (getLogger w (logger_name cfg))))
          (registry_key (logger_name cfg) \<mapsto>
            lg0\<lparr>lg_level := 10, lg_propagate := True,
                lg_handlers := handlers_of w (registry_key (logger_name cfg)) @ built_handlers cfg (next_id w)\<rparr>),
       next_id := Suc (Suc (Suc (next_id w))),
       files := (files w)(log_file cfg \<mapsto> file_content w (log_file cfg))\<rparr>,
     Inr (registry_key (logger_name cfg)))"
proof -
  define w1 where "w1 = fst (getLogger w (logger_name cfg))"
  let ?key = "registry_key (logger_name cfg)"
  have g: "getLogger w (logger_name cfg) = (w1, ?key)"
    unfolding w1_def by (rule getLogger_pair)
  from getLogger_exists [of w "logger_name cfg"]
  obtain lg0 where lg0: "loggerDict w1 ?key = Some lg0"
    unfolding w1_def by blast
  then have hs: "lg_handlers lg0 = handlers_of w ?key"
    unfolding w1_def by (rule getLogger_own_handlers)
  have same: "next_id w1 = next_id w" "files w1 = files w" "unopenable w1 = unopenable w"
    unfolding w1_def by simp_all
  from inv hs have "\<forall>h \<in> set (lg_handlers lg0). h_id h < next_id w"
    by (auto dest: ids_in_use_handlers_of)
  then have fresh: "next_id w \<notin> h_id ` set (lg_handlers lg0)"
    "Suc (next_id w) \<notin> h_id ` set (lg_handlers lg0)"
    "Suc (Suc (next_id w)) \<notin> h_id ` set (lg_handlers lg0)"
    by auto
  have "general_logger w cfg =
    (w1\<lparr>loggerDict := (loggerDict w1)(?key \<mapsto>
            lg0\<lparr>lg_level := 10, lg_propagate := True,
                lg_handlers := handlers_of w ?key @ built_handlers cfg (next_id w)\<rparr>),
       next_id := Suc (Suc (Suc (next_id w))),
       files := (files w)(log_file cfg \<mapsto> file_content w (log_file cfg))\<rparr>,
     Inr ?key)"
  proof (cases "log_file_type cfg = ''log''")
    case True
    with op lg0 hs [symmetric] same fresh show ?thesis
      unfolding general_logger_def g
      by (simp add: Let_def update_logger_def file_branch_def
          FileHandler_init_def new_handler_def addHandler_def
          built_handlers_def file_formatter_def log_file_def file_content_def)
  next
    case False
    with ty have "log_file_type cfg = ''json''" by simp
    with op lg0 hs [symmetric] same fresh show ?thesis
      unfolding general_logger_def g
      by (simp add: Let_def update_logger_def file_branch_def
          FileHandler_init_def new_handler_def addHandler_def
          built_handlers_def file_formatter_def log_file_def file_content_def)
  qed
  with lg0 show ?thesis
    unfolding w1_def by blast
qed

lemma general_logger_unbound:
  assumes "log_file_type cfg \<noteq> ''log''" and "log_file_type cfg \<noteq> ''json''"
  shows "\<exists>lg0. loggerDict (fst (getLogger w (logger_name cfg))) (registry_key (logger_name cfg)) = Some lg0
    \<and> general_logger w cfg =
    ((fst (getLogger w (logger_name cfg)))
       \<lparr>loggerDict := (loggerDict (fst (getLogger w (logger_name cfg))))
          (registry_key (logger_name cfg) \<mapsto> lg0\<lparr>lg_level := 10, lg_propagate := True\<rparr>),
       next_id := Suc (Suc (next_id w))\<rparr>,
     Inl (UnboundLocalError ''log_file_handler''))"
proof -
  define w1 where "w1 = fst (getLogger w (logger_name cfg))"
  let ?key = "registry_key (logger_name cfg)"
  have g: "getLogger w (logger_name cfg) = (w1, ?key)"
    unfolding w1_def by (rule getLogger_pair)
  from getLogger_exists [of w "logger_name cfg"]
  obtain lg0 where lg0: "loggerDict w1 ?key = Some lg0"
    unfolding w1_def by blast
  have same: "next_id w1 = next_id w"
    unfolding w1_def by simp
  have "general_logger w cfg =
    (w1\<lparr>loggerDict := (loggerDict w1)(?key \<mapsto> lg0\<lparr>lg_level := 10, lg_propagate := True\<rparr>),
       next_id := Suc (Suc (next_id w))\<rparr>,
     Inl (UnboundLocalError ''log_file_handler''))"
    using assms lg0 same
    unfolding general_logger_def g
    by (simp add: Let_def update_logger_def file_branch_def new_handler_def)
  with lg0 show ?thesis
    unfolding w1_def by blast
qed

lemma general_logger_oserror:
  assumes "log_file_type cfg = ''log'' \<or> log_file_type cfg = ''json''"
    and "log_file cfg \<in> unopenable w"
  shows "\<exists>lg0. loggerDict (fst (getLogger w (logger_name cfg))) (registry_key (logger_name cfg)) = Some lg0
    \<and> general_logger w cfg =
    ((fst (getLogger w (logger_name cfg)))
       \<lparr>loggerDict := (loggerDict (fst (getLogger w (logger_name cfg))))
          (registry_key (logger_name cfg) \<mapsto> lg0\<lparr>lg_level := 10, lg_propagate := True\<rparr>)\<rparr>,
     Inl (OSError (log_file cfg)))"
proof -
  define w1 where "w1 = fst (getLogger w (logger_name cfg))"
  let ?key = "registry_key (logger_name cfg)"
  have g: "getLogger w (logger_name cfg) = (w1, ?key)"
    unfolding w1_def by (rule getLogger_pair)
  from getLogger_exists [of w "logger_name cfg"]
  obtain lg0 where lg0: "loggerDict w1 ?key = Some lg0"
    unfolding w1_def by blast
  have same: "unopenable w1 = unopenable w"
    unfolding w1_def by simp
  have "general_logger w cfg =
    (w1\<lparr>loggerDict := (loggerDict w1)(?key \<mapsto> lg0\<lparr>lg_level := 10, lg_propagate := True\<rparr>)\<rparr>,
     Inl (OSError (log_file cfg)))"
  proof (cases "log_file_type cfg = ''log''")
    case True
    with assms(2) lg0 same show ?thesis
      unfolding general_logger_def g
      by (simp add: Let_def update_logger_def file_branch_def FileHandler_init_def log_file_def)
  next
    case False
    with assms(1) have "log_file_type cfg = ''json''" by simp
    with assms(2) lg0 same show ?thesis
      unfolding general_logger_def g
      by (simp add: Let_def update_logger_def file_branch_def FileHandler_init_def log_file_def)
  qed
  with lg0 show ?thesis
    unfolding w1_def by blast
qed

lemma general_logger_Inr_conds:
  assumes "general_logger w cfg = (w', Inr key)"
  shows "(log_file_type cfg = ''log'' \<or> log_file_type cfg = ''json'')
         \<and> log_file cfg \<notin> unopenable w"
proof (rule ccontr)
  assume neg: "\<not> ?thesis"
  show False
  proof (cases "log_file_type cfg = ''log'' \<or> log_file_type cfg = ''json''")
    case True
    with neg have "log_file cfg \<in> unopenable w" by blast
    from general_logger_oserror [OF True this] assms show False by auto
  next
    case False
    then have "log_file_type cfg \<noteq> ''log''" "log_file_type cfg \<noteq> ''json''" by auto
    from general_logger_unbound [OF this, of w] assms show False by auto
  qed
qed

text \<open>
  In each of the three cases the registry after the call is the registry after
  \<open>getLogger\<close> with the one logger changed in its level, its flag and its handlers.
\<close>

lemma general_logger_registry:
  assumes inv: "ids_in_use w"
  shows "\<exists>lg0 hs. loggerDict (fst (getLogger w (logger_name cfg))) (registry_key (logger_name cfg)) = Some lg0
     \<and> loggerDict (fst (general_logger w cfg)) =
         (loggerDict (fst (getLogger w (logger_name cfg))))
           (registry_key (logger_name cfg) \<mapsto>
              lg0\<lparr>lg_level := 10, lg_propagate := True, lg_handlers := hs\<rparr>)
     \<and> (hs = handlers_of w (registry_key (logger_name cfg))
          \<and> next_id w \<le> next_id (fst (general_logger w cfg))
        \<or> hs = handlers_of w (registry_key (logger_name cfg)) @ built_handlers cfg (next_id w)
          \<and> next_id (fst (general_logger w cfg)) = Suc (Suc (Suc (next_id w))))"
proof -
  let ?key = "registry_key (logger_name cfg)"
  let ?w1 = "fst (getLogger w (logger_name cfg))"
  consider (ret) "log_file_type cfg = ''log'' \<or> log_file_type cfg = ''json''"
      "log_file cfg \<notin> unopenable w"
    | (os) "log_file_type cfg = ''log'' \<or> log_file_type cfg = ''json''"
      "log_file cfg \<in> unopenable w"
    | (unb) "log_file_type cfg \<noteq> ''log''" "log_file_type cfg \<noteq> ''json''"
    by blast
  then show ?thesis
  proof cases
    case ret
    from general_logger_returns [OF inv ret] obtain lg0 where
      "loggerDict ?w1 ?key = Some lg0" and
      eq: "general_logger w cfg =
        (?w1\<lparr>loggerDict := (loggerDict ?w1)(?key \<mapsto>
            lg0\<lparr>lg_level := 10, lg_propagate := True,
                lg_handlers := handlers_of w ?key @ built_handlers cfg (next_id w)\<rparr>),
          next_id := Suc (Suc (Suc (next_id w))),
          files := (files w)(log_file cfg \<mapsto> file_content w (log_file cfg))\<rparr>, Inr ?key)"
      by blast
    then show ?thesis by (auto simp: eq)
  next
    case os
    from general_logger_oserror [OF os] obtain lg0 where
      lg0: "loggerDict ?w1 ?key = Some lg0" and
      eq: "general_logger w cfg =
        (?w1\<lparr>loggerDict := (loggerDict ?w1)(?key \<mapsto> lg0\<lparr>lg_level := 10, lg_propagate := True\<rparr>)\<rparr>,
         Inl (OSError (log_file cfg)))"
      by blast
    from lg0 have "lg_handlers lg0 = handlers_of w ?key"
      by (rule getLogger_own_handlers)
    then have "lg0\<lparr>lg_level := 10, lg_propagate := True\<rparr> =
        lg0\<lparr>lg_level := 10, lg_propagate := True, lg_handlers := handlers_of w ?key\<rparr>"
      by (cases lg0) simp
    with lg0 show ?thesis by (auto simp: eq)
  next
    case unb
    from general_logger_unbound [OF unb] obtain lg0 where
      lg0: "loggerDict ?w1 ?key = Some lg0" and
      eq: "general_logger w cfg =
        (?w1\<lparr>loggerDict := (loggerDict ?w1)(?key \<mapsto> lg0\<lparr>lg_level := 10, lg_propagate := True\<rparr>),
           next_id := Suc (Suc (next_id w))\<rparr>,
         Inl (UnboundLocalError ''log_file_handler''))"
      by blast
    from lg0 have "lg_handlers lg0 = handlers_of w ?key"
      by (rule getLogger_own_handlers)
    then have "lg0\<lparr>lg_level := 10, lg_propagate := True\<rparr> =
        lg0\<lparr>lg_level := 10, lg_propagate := True, lg_handlers := handlers_of w ?key\<rparr>"
      by (cases lg0) simp
    with lg0 show ?thesis by (auto simp: eq)
  qed
qed

lemma ids_in_use_general_logger:
  assumes inv: "ids_in_use w"
  shows "ids_in_use (fst (general_logger w cfg))"
proof -
  let ?key = "registry_key (logger_name cfg)"
  let ?w1 = "fst (getLogger w (logger_name cfg))"
  let ?w' = "fst (general_logger w cfg)"
  from general_logger_registry [OF inv, of cfg] obtain lg0 hs where
    reg: "loggerDict ?w' = (loggerDict ?w1)(?key \<mapsto>
            lg0\<lparr>lg_level := 10, lg_propagate := True, lg_handlers := hs\<rparr>)"
    and hs: "hs = handlers_of w ?key \<and> next_id w \<le> next_id ?w'
        \<or> hs = handlers_of w ?key @ built_handlers cfg (next_id w)
          \<and> next_id ?w' = Suc (Suc (Suc (next_id w)))"
    by blast
  from hs have mono: "next_id w \<le> next_id ?w'" by auto
  have own: "\<forall>h \<in> set hs. h_id h < next_id ?w'"
    using hs
  proof
    assume "hs = handlers_of w ?key \<and> next_id w \<le> next_id ?w'"
    with inv show ?thesis
      by (auto dest: ids_in_use_handlers_of)
  next
    assume "hs = handlers_of w ?key @ built_handlers cfg (next_id w)
        \<and> next_id ?w' = Suc (Suc (Suc (next_id w)))"
    with inv show ?thesis
      by (auto simp: built_handlers_def less_Suc_eq dest: ids_in_use_handlers_of)
  qed
  show ?thesis
    unfolding ids_in_use_iff
  proof (intro allI ballI)
    fix k h
    assume h: "h \<in> set (handlers_of ?w' k)"
    show "h_id h < next_id ?w'"
    proof (cases "k = ?key")
      case True
      with h reg own show ?thesis
        by (simp add: handlers_of_def)
    next
      case False
      with h reg have "h \<in> set (handlers_of ?w1 k)"
        by (simp add: handlers_of_def)
      then have "h \<in> set (handlers_of w k)" by simp
      with inv have "h_id h < next_id w" by (rule ids_in_use_handlers_of)
      with mono show ?thesis by simp
    qed
  qed
qed

lemma parents_wf_general_logger:
  assumes inv: "ids_in_use w" and wf: "parents_wf w"
  shows "parents_wf (fst (general_logger w cfg))"
proof -
  let ?key = "registry_key (logger_name cfg)"
  let ?w1 = "fst (getLogger w (logger_name cfg))"
  let ?w' = "fst (general_logger w cfg)"
  from general_logger_registry [OF inv, of cfg] obtain lg0 hs where
    lg0: "loggerDict ?w1 ?key = Some lg0"
    and reg: "loggerDict ?w' = (loggerDict ?w1)(?key \<mapsto>
            lg0\<lparr>lg_level := 10, lg_propagate := True, lg_handlers := hs\<rparr>)"
    by blast
  from wf have wf1: "parents_wf ?w1" by (rule parents_wf_getLogger)
  show ?thesis
    unfolding parents_wf_def
  proof (intro allI impI)
    fix k lg
    assume at: "loggerDict ?w' k = Some lg"
    show "k \<noteq> [] \<and> (if k = ''root'' then lg_parent lg = None
          else \<exists>parent. lg_parent lg = Some parent
                 \<and> (parent = ''root'' \<or> length parent < length k))"
    proof (cases "k = ?key")
      case True
      with at reg have "lg_parent lg = lg_parent lg0" by auto
      with wf1 lg0 True show ?thesis
        by (simp add: parents_wf_def)
    next
      case False
      with at reg have "loggerDict ?w1 k = Some lg" by simp
      with wf1 show ?thesis
        by (simp add: parents_wf_def)
    qed
  qed
qed

lemma general_logger_returns_facts:
  assumes inv: "ids_in_use w"
    and ty: "log_file_type cfg = ''log'' \<or> log_file_type cfg = ''json''"
    and op: "log_file cfg \<notin> unopenable w"
  shows "snd (general_logger w cfg) = Inr (registry_key (logger_name cfg))"
    and "handlers_of (fst (general_logger w cfg)) (registry_key (logger_name cfg)) =
         handlers_of w (registry_key (logger_name cfg)) @ built_handlers cfg (next_id w)"
    and "next_id (fst (general_logger w cfg)) = next_id w + 3"
    and "unopenable (fst (general_logger w cfg)) = unopenable w"
    and "\<exists>lg. loggerDict (fst (general_logger w cfg)) (registry_key (logger_name cfg)) = Some lg
           \<and> lg_level lg = 10 \<and> lg_propagate lg
           \<and> lg_handlers lg =
               handlers_of w (registry_key (logger_name cfg)) @ built_handlers cfg (next_id w)"
proof -
  from general_logger_returns [OF inv ty op] obtain lg0 where
    eq: "general_logger w cfg =
      ((fst (getLogger w (logger_name cfg)))
         \<lparr>loggerDict := (loggerDict (fst (getLogger w (logger_name cfg))))
            (registry_key (logger_name cfg) \<mapsto>
              lg0\<lparr>lg_level := 10, lg_propagate := True,
                  lg_handlers := handlers_of w (registry_key (logger_name cfg)) @ built_handlers cfg (next_id w)\<rparr>),
         next_id := Suc (Suc (Suc (next_id w))),
         files := (files w)(log_file cfg \<mapsto> file_content w (log_file cfg))\<rparr>,
       Inr (registry_key (logger_name cfg)))"
    by blast
  show "snd (general_logger w cfg) = Inr (registry_key (logger_name cfg))"
    by (simp add: eq)
  show "handlers_of (fst (general_logger w cfg)) (registry_key (logger_name cfg)) =
         handlers_of w (registry_key (logger_name cfg)) @ built_handlers cfg (next_id w)"
    by (simp add: eq handlers_of_def)
  show "next_id (fst (general_logger w cfg)) = next_id w + 3"
    by (simp add: eq)
  show "unopenable (fst (general_logger w cfg)) = unopenable w"
    by (simp add: eq)
  show "\<exists>lg. loggerDict (fst (general_logger w cfg)) (registry_key (logger_name cfg)) = Some lg
           \<and> lg_level lg = 10 \<and> lg_propagate lg
           \<and> lg_handlers lg =
               handlers_of w (registry_key (logger_name cfg)) @ built_handlers cfg (next_id w)"
    by (simp add: eq)
qed

subsection \<open>What the handlers do with a record\<close>

lemma terminal_format_without_names:
  "map_of (lr_extra r) ''names'' = None \<Longrightarrow>
   format_record CustomTerminalFormat r = Inl (ValueError ''names'')"
  by (cases "lr_level r") (simp_all add: Formatter_format_def record_attr_def)

lemma terminal_format_with_names:
  "map_of (lr_extra r) ''names'' = Some v \<Longrightarrow>
   \<exists>line. format_record CustomTerminalFormat r = Inr (Text line)"
  by (cases "lr_level r") (simp_all add: Formatter_format_def record_attr_def)

lemma callHandlers_append:
  "callHandlers w (hs @ hs') r = callHandlers (callHandlers w hs r) hs' r"
  by (induction hs arbitrary: w) simp_all

lemma emit_keeps_attempts:
  "\<exists>more. smtp_attempts (emit w h r) = smtp_attempts w @ more"
  by (cases "h_kind h")
     (auto simp: emit_def handleError_def Let_def split: sum.splits)

lemma callHandlers_keeps_attempts:
  "\<exists>more. smtp_attempts (callHandlers w hs r) = smtp_attempts w @ more"
proof (induction hs arbitrary: w)
  case Nil
  show ?case by simp
next
  case (Cons h hs)
  let ?w1 = "if h_level h \<le> levelno (lr_level r) then emit w h r else w"
  from emit_keeps_attempts [of w h r]
  obtain m1 where m1: "smtp_attempts ?w1 = smtp_attempts w @ m1"
    by (cases "h_level h \<le> levelno (lr_level r)") auto
  from Cons.IH [of ?w1]
  obtain m2 where "smtp_attempts (callHandlers ?w1 hs r) = smtp_attempts ?w1 @ m2"
    by blast
  with m1 show ?case by simp
qed

lemma built_handlers_critical:
  assumes "lr_level r = CRITICAL"
  shows "smtp_attempts (callHandlers w (built_handlers cfg n) r) =
         smtp_attempts w @
         [\<lparr>sa_mailhost = mail_host_detail cfg, sa_fromaddr = critical_email_host_address cfg,
           sa_toaddrs = critical_email_address_list cfg, sa_subject = critical_email_subject cfg,
           sa_credentials = email_credentials cfg, sa_body = Inr (Text (lr_message r))\<rparr>]"
  using assms
  by (simp add: built_handlers_def emit_def Let_def handleError_def Handler_format_def
      Formatter_format_def default_format_def record_attr_def
      split: sum.splits)

text \<open>
  A logging call on a logger that has a level of its own and handlers of its own: its
  handlers come first, those met further up after them.
\<close>

lemma Logger_log_own_handlers:
  assumes "loggerDict w key = Some lg"
    and "lg_level lg \<noteq> 0" and "lg_level lg \<le> levelno (lr_level r)"
    and "lg_handlers lg \<noteq> []"
  shows "\<exists>up. Logger_log w key r = callHandlers w (lg_handlers lg @ up) (r\<lparr>lr_name := key\<rparr>)"
proof -
  let ?up = "if lg_propagate lg
    then propagated w (case lg_parent lg of None \<Rightarrow> [] | Some p \<Rightarrow> ancestry (length key) w p)
    else []"
  from assms
  have "Logger_log w key r = callHandlers w (lg_handlers lg @ ?up) (r\<lparr>lr_name := key\<rparr>)"
    by (simp add: Logger_log_def Logger_callHandlers_def logger_at_def Let_def)
  then show ?thesis by blast
qed

text \<open>
  Emitting a record changes neither the registry nor the identities handed out.
\<close>

lemma emit_keeps_registry:
  "loggerDict (emit w h r) = loggerDict w \<and> next_id (emit w h r) = next_id w"
  by (cases "h_kind h")
     (auto simp: emit_def handleError_def Let_def split: sum.splits)

lemma callHandlers_keeps_registry:
  "loggerDict (callHandlers w hs r) = loggerDict w
   \<and> next_id (callHandlers w hs r) = next_id w"
  by (induction hs arbitrary: w) (simp_all add: emit_keeps_registry)

lemma Logger_log_keeps_registry:
  "loggerDict (Logger_log w key r) = loggerDict w
   \<and> next_id (Logger_log w key r) = next_id w"
  by (simp add: Logger_log_def Logger_callHandlers_def Let_def callHandlers_keeps_registry
      split: option.splits)

lemma ids_in_use_Logger_log:
  "ids_in_use (Logger_log w key r) = ids_in_use w"
  by (simp add: ids_in_use_def Logger_log_keeps_registry)

lemma parents_wf_Logger_log:
  "parents_wf (Logger_log w key r) = parents_wf w"
  by (simp add: parents_wf_def Logger_log_keeps_registry)

text \<open>
  The bound on the way up is enough: in a registry with well-formed parents more steps
  visit no more loggers.
\<close>

lemma ancestry_root:
  assumes "parents_wf w"
  shows "ancestry (Suc n) w ''root'' = [''root'']"
proof (cases "loggerDict w ''root''")
  case None
  then show ?thesis by (simp add: logger_at_def new_logger_def)
next
  case (Some lg)
  with assms have "lg_parent lg = None" by (auto simp: parents_wf_def)
  with Some show ?thesis by (simp add: logger_at_def)
qed

lemma ancestry_fuel:
  assumes wf: "parents_wf w"
  shows "length key < n \<Longrightarrow> length key < m \<Longrightarrow> ancestry n w key = ancestry m w key"
proof (induction n arbitrary: m key)
  case 0
  then show ?case by simp
next
  case (Suc n)
  from Suc.prems obtain m' where m: "m = Suc m'"
    by (cases m) auto
  show ?case
  proof (cases "key = ''root''")
    case True
    with wf m show ?thesis by (simp only: ancestry_root)
  next
    case False
    show ?thesis
    proof (cases "loggerDict w key")
      case None
      with False m show ?thesis by (simp add: logger_at_def)
    next
      case (Some lg)
      from wf [unfolded parents_wf_def, rule_format, OF Some] False
      have nonempty: "key \<noteq> []"
        and "\<exists>parent. lg_parent lg = Some parent
              \<and> (parent = ''root'' \<or> length parent < length key)"
        by simp_all
      then obtain parent where par: "lg_parent lg = Some parent"
        and shorter: "parent = ''root'' \<or> length parent < length key"
        by blast
      have "ancestry n w parent = ancestry m' w parent"
      proof (cases "parent = ''root''")
        case True
        from nonempty Suc.prems m obtain n0 m0 where "n = Suc n0" "m' = Suc m0"
          by (cases n; cases m'; cases key) auto
        with True wf show ?thesis by (simp only: ancestry_root)
      next
        case notroot: False
        with shorter Suc.prems m have "length parent < n" "length parent < m'" by auto
        then show ?thesis by (rule Suc.IH)
      qed
      with Some par m show ?thesis by (simp add: logger_at_def)
    qed
  qed
qed

lemma ancestry_enough:
  "parents_wf w \<Longrightarrow> length key < n \<Longrightarrow> ancestry n w key = ancestry (Suc (length key)) w key"
  by (rule ancestry_fuel) simp_all

subsection \<open>Two processes evaluated\<close>

text \<open>
  A new process and the default call in it; and a logger \<open>app\<close> with a child
  \<open>app.child\<close>, each configured by \<open>general_logger\<close> with a mail host of its own: a
  critical event on the child is sent by the child's handler first and by the
  parent's after it, whichever of the two was configured first.
\<close>

lemma find_never: "find (\<lambda>c. False) xs = None"
  by (induction xs) simp_all

lemma getLogger_fresh:
  assumes "registry_key n \<noteq> ''root''"
  shows "getLogger fresh_world n =
    (fresh_world\<lparr>loggerDict :=
        [registry_key n \<mapsto> new_logger (registry_key n) (Some ''root'')]\<rparr>,
     registry_key n)"
  using assms
  by (simp add: getLogger_def Let_def fresh_world_def fixupParents_def fixupChildren_def
      find_never)

lemma general_logger_fresh_default:
  "general_logger fresh_world (default_config path) =
     (fresh_world\<lparr>loggerDict :=
         [''general_log'' \<mapsto>
            \<lparr>lg_level = 10, lg_propagate = True,
             lg_handlers = built_handlers (default_config path) 0,
             lg_parent = Some ''root''\<rparr>],
        next_id := 3,
        files := [path @ ''.log'' \<mapsto> []]\<rparr>, Inr ''general_log'')"
proof -
  have ty: "log_file_type (default_config path) = ''log''
      \<or> log_file_type (default_config path) = ''json''"
    by (simp add: default_config_def)
  have op: "log_file (default_config path) \<notin> unopenable fresh_world"
    by (simp add: fresh_world_def)
  have name: "logger_name (default_config path) = ''general_log''"
    by (simp add: default_config_def)
  have got: "getLogger fresh_world ''general_log'' =
      (fresh_world\<lparr>loggerDict :=
          [''general_log'' \<mapsto> new_logger ''general_log'' (Some ''root'')]\<rparr>, ''general_log'')"
    using getLogger_fresh [of "''general_log''"] by (simp add: registry_key_def)
  from general_logger_returns [OF ids_in_use_fresh ty op]
  show ?thesis
    unfolding name got
    by (auto simp: registry_key_def new_logger_def handlers_of_def fresh_world_def
        file_content_def log_file_def default_config_def numeral_3_eq_3)
qed

lemma child_then_parent:
  "map sa_mailhost (smtp_attempts (Logger_log
      (fst (general_logger
         (fst (general_logger fresh_world
            ((default_config ''/app/parent'')
               \<lparr>logger_name := ''app'', mail_host_detail := ''mail.parent''\<rparr>)))
         ((default_config ''/app/child'')
            \<lparr>logger_name := ''app.child'', mail_host_detail := ''mail.child''\<rparr>)))
      ''app.child'' (plain_record CRITICAL ''disk full''))) =
   [''mail.child'', ''mail.parent'']"
  by code_simp

lemma parent_after_child:
  "map sa_mailhost (smtp_attempts (Logger_log
      (fst (general_logger
         (fst (general_logger fresh_world
            ((default_config ''/app/child'')
               \<lparr>logger_name := ''app.child'', mail_host_detail := ''mail.child''\<rparr>)))
         ((default_config ''/app/parent'')
            \<lparr>logger_name := ''app'', mail_host_detail := ''mail.parent''\<rparr>)))
      ''app.child'' (plain_record CRITICAL ''disk full''))) =
   [''mail.child'', ''mail.parent'']"
  by code_simp

subsection \<open>The claims\<close>

text \<open>
  C7. The claim is one console line per event, one file line per event at \<open>INFO\<close> or
  above, and one mail for the critical event. After the default call in a new process
  and one plain event of each severity, the log file has its four lines and one mail
  was attempted, for the critical event; the console has no line at all: every format
  of \<open>CustomTerminalFormat\<close> names the field \<open>names\<close>, which a record does not have, so
  the terminal handler fails on each of the five events and each failure is reported
  through \<open>handleError\<close> instead.
\<close>

theorem general_logger_five_events:
  "snd (general_logger fresh_world (default_config path)) = Inr ''general_log''
   \<and> stderr (five_events (fst (general_logger fresh_world (default_config path)))
        ''general_log'') = []
   \<and> logging_errors (five_events (fst (general_logger fresh_world (default_config path)))
        ''general_log'') =
       [(1, ValueError ''names''), (1, ValueError ''names''), (1, ValueError ''names''),
        (1, ValueError ''names''), (1, ValueError ''names'')]
   \<and> file_content (five_events (fst (general_logger fresh_world (default_config path)))
        ''general_log'') (path @ ''.log'') =
       [Text ''2024-01-31 09:30:00 - general_log - INFO - event'',
        Text ''2024-01-31 09:30:00 - general_log - WARNING - event'',
        Text ''2024-01-31 09:30:00 - general_log - ERROR - event'',
        Text ''2024-01-31 09:30:00 - general_log - CRITICAL - event'']
   \<and> smtp_attempts (five_events (fst (general_logger fresh_world (default_config path)))
        ''general_log'') =
       [\<lparr>sa_mailhost = ''localhost'', sa_fromaddr = [], sa_toaddrs = [],
         sa_subject = ''CRITICAL level triggered'', sa_credentials = None,
         sa_body = Inr (Text ''event'')\<rparr>]"
  unfolding general_logger_fresh_default
  by (simp add: five_events_def Logger_log_def Logger_callHandlers_def logger_at_def
      new_logger_def registry_key_def default_config_def
      handlers_of_def fresh_world_def built_handlers_def file_formatter_def log_file_def
      emit_def Handler_format_def Formatter_format_def handleError_def plain_record_def
      record_attr_def logfile_format_def default_format_def file_content_def Let_def)

text \<open>
  C8. The claim is that with the file type \<open>none\<close> the call still returns a logger,
  with the console and mail handlers and no file. With that file type, in any state
  of the process, the call raises \<open>UnboundLocalError\<close> for \<open>log_file_handler\<close>; the
  logger has the handlers it had before, none added, and no file is made or changed.
\<close>

theorem general_logger_file_type_none:
  "snd (general_logger w ((default_config path)\<lparr>log_file_type := ''none''\<rparr>)) =
     Inl (UnboundLocalError ''log_file_handler'')
   \<and> handlers_of (fst (general_logger w ((default_config path)\<lparr>log_file_type := ''none''\<rparr>)))
        ''general_log'' = handlers_of w ''general_log''
   \<and> files (fst (general_logger w ((default_config path)\<lparr>log_file_type := ''none''\<rparr>))) =
       files w"
proof -
  let ?cfg = "(default_config path)\<lparr>log_file_type := ''none''\<rparr>"
  have ty: "log_file_type ?cfg \<noteq> ''log''" "log_file_type ?cfg \<noteq> ''json''"
    by simp_all
  have key: "registry_key (logger_name ?cfg) = ''general_log''"
    by (simp add: registry_key_def default_config_def)
  from general_logger_unbound [OF ty, of w] obtain lg0 where
    lg0: "loggerDict (fst (getLogger w (logger_name ?cfg))) ''general_log'' = Some lg0"
    and eq: "general_logger w ?cfg =
      ((fst (getLogger w (logger_name ?cfg)))
         \<lparr>loggerDict := (loggerDict (fst (getLogger w (logger_name ?cfg))))
            (''general_log'' \<mapsto> lg0\<lparr>lg_level := 10, lg_propagate := True\<rparr>),
          next_id := Suc (Suc (next_id w))\<rparr>,
       Inl (UnboundLocalError ''log_file_handler''))"
    unfolding key by blast
  from lg0 key have "lg_handlers lg0 = handlers_of w ''general_log''"
    using getLogger_own_handlers [of w "logger_name ?cfg" lg0] by simp
  then show ?thesis
    by (simp add: eq handlers_of_def)
qed

text \<open>
  C9. Two calls with the same logger name, each with a file type of \<open>log\<close> or \<open>json\<close>
  and a log file that can be opened, both return the same logger, the one registered
  under that name, and the second call adds its three handlers after the three of
  the first: the logger ends with six handlers more than it had, two sets of sinks.
\<close>

theorem general_logger_twice:
  assumes inv: "ids_in_use w"
    and ty1: "log_file_type cfg1 = ''log'' \<or> log_file_type cfg1 = ''json''"
    and ty2: "log_file_type cfg2 = ''log'' \<or> log_file_type cfg2 = ''json''"
    and op1: "log_file cfg1 \<notin> unopenable w"
    and op2: "log_file cfg2 \<notin> unopenable w"
    and same: "logger_name cfg2 = logger_name cfg1"
  shows "snd (general_logger w cfg1) = Inr (registry_key (logger_name cfg1))
    \<and> snd (general_logger (fst (general_logger w cfg1)) cfg2) =
        Inr (registry_key (logger_name cfg1))
    \<and> handlers_of (fst (general_logger w cfg1)) (registry_key (logger_name cfg1)) =
        handlers_of w (registry_key (logger_name cfg1)) @ built_handlers cfg1 (next_id w)
    \<and> handlers_of (fst (general_logger (fst (general_logger w cfg1)) cfg2))
          (registry_key (logger_name cfg1)) =
        handlers_of w (registry_key (logger_name cfg1)) @ built_handlers cfg1 (next_id w)
          @ built_handlers cfg2 (next_id w + 3)
    \<and> length (handlers_of (fst (general_logger (fst (general_logger w cfg1)) cfg2))
          (registry_key (logger_name cfg1))) =
        length (handlers_of w (registry_key (logger_name cfg1))) + 6"
proof -
  let ?key = "registry_key (logger_name cfg1)"
  let ?w1 = "fst (general_logger w cfg1)"
  let ?w2 = "fst (general_logger ?w1 cfg2)"
  note first = general_logger_returns_facts [OF inv ty1 op1]
  from first(4) op2 have op2': "log_file cfg2 \<notin> unopenable ?w1" by simp
  have inv1: "ids_in_use ?w1" using inv by (rule ids_in_use_general_logger)
  note second = general_logger_returns_facts [OF inv1 ty2 op2']
  from second(1) same have r2: "snd (general_logger ?w1 cfg2) = Inr ?key" by simp
  from second(2) same first(2) first(3) have h2: "handlers_of ?w2 ?key =
      handlers_of w ?key @ built_handlers cfg1 (next_id w) @ built_handlers cfg2 (next_id w + 3)"
    by simp
  then have len: "length (handlers_of ?w2 ?key) = length (handlers_of w ?key) + 6"
    by (simp add: built_handlers_def)
  from first(1) r2 first(2) h2 len show ?thesis by blast
qed

theorem general_logger_twice_witness:
  "snd (general_logger fresh_world (default_config ''/app/log'')) = Inr ''general_log''
   \<and> snd (general_logger (fst (general_logger fresh_world (default_config ''/app/log'')))
            (default_config ''/app/log'')) = Inr ''general_log''
   \<and> map h_id (handlers_of
        (fst (general_logger (fst (general_logger fresh_world (default_config ''/app/log'')))
               (default_config ''/app/log''))) ''general_log'') = [0, 1, 2, 3, 4, 5]
   \<and> map h_level (handlers_of
        (fst (general_logger (fst (general_logger fresh_world (default_config ''/app/log'')))
               (default_config ''/app/log''))) ''general_log'') = [20, 10, 50, 20, 10, 50]"
proof -
  have ty: "log_file_type (default_config ''/app/log'') = ''log''
      \<or> log_file_type (default_config ''/app/log'') = ''json''"
    by (simp add: default_config_def)
  have op: "log_file (default_config ''/app/log'') \<notin> unopenable fresh_world"
    by (simp add: fresh_world_def)
  have old: "handlers_of fresh_world ''general_log'' = []"
    by (simp add: handlers_of_def fresh_world_def)
  have key: "registry_key (logger_name (default_config ''/app/log'')) = ''general_log''"
    by (simp add: registry_key_def default_config_def)
  have n: "next_id fresh_world = 0"
    by (simp add: fresh_world_def)
  from general_logger_twice [OF ids_in_use_fresh ty ty op op refl]
  show ?thesis
    unfolding key old n by (simp add: built_handlers_def)
qed

text \<open>
  C10. Whatever the configuration, when \<open>general_logger\<close> returns a logger, that logger
  has the mail handler attached, at level \<open>CRITICAL\<close>, built from the mail host,
  sender, recipients, subject and credentials of the configuration as they are, the
  defaults included; and a critical event on that logger makes that handler attempt
  to send it. Handlers attached to the logger earlier may send before it, and the
  handlers of the loggers above, to which the record is passed on, after it.
\<close>

theorem general_logger_critical_email:
  assumes inv: "ids_in_use w"
    and ret: "general_logger w cfg = (w', Inr key)"
  shows "key = registry_key (logger_name cfg)
    \<and> (\<exists>h \<in> set (handlers_of w' key).
          h_kind h = SMTPHandler (mail_host_detail cfg) (critical_email_host_address cfg)
             (critical_email_address_list cfg) (critical_email_subject cfg) (email_credentials cfg)
          \<and> h_level h = 50)
    \<and> (lr_level r = CRITICAL \<longrightarrow>
         (\<exists>earlier later. smtp_attempts (Logger_log w' key r) =
            smtp_attempts w' @ earlier @
            [\<lparr>sa_mailhost = mail_host_detail cfg, sa_fromaddr = critical_email_host_address cfg,
              sa_toaddrs = critical_email_address_list cfg, sa_subject = critical_email_subject cfg,
              sa_credentials = email_credentials cfg, sa_body = Inr (Text (lr_message r))\<rparr>]
            @ later))"
proof -
  from general_logger_Inr_conds [OF ret]
  have ty: "log_file_type cfg = ''log'' \<or> log_file_type cfg = ''json''"
    and op: "log_file cfg \<notin> unopenable w" by blast+
  let ?key = "registry_key (logger_name cfg)"
  let ?old = "handlers_of w ?key"
  let ?built = "built_handlers cfg (next_id w)"
  note facts = general_logger_returns_facts [OF inv ty op]
  from facts(1) ret have key: "key = ?key" by simp
  from ret have w': "fst (general_logger w cfg) = w'" by simp
  from facts(2) have hs: "handlers_of w' ?key = ?old @ ?built"
    unfolding w' .
  from facts(5) obtain lg where lg: "loggerDict w' ?key = Some lg"
    and level: "lg_level lg = 10" and own: "lg_handlers lg = ?old @ ?built"
    unfolding w' by blast
  have attached: "\<exists>h \<in> set (handlers_of w' ?key).
          h_kind h = SMTPHandler (mail_host_detail cfg) (critical_email_host_address cfg)
             (critical_email_address_list cfg) (critical_email_subject cfg) (email_credentials cfg)
          \<and> h_level h = 50"
    unfolding hs by (simp add: built_handlers_def)
  have sent: "\<exists>earlier later. smtp_attempts (Logger_log w' ?key r) =
            smtp_attempts w' @ earlier @
            [\<lparr>sa_mailhost = mail_host_detail cfg, sa_fromaddr = critical_email_host_address cfg,
              sa_toaddrs = critical_email_address_list cfg, sa_subject = critical_email_subject cfg,
              sa_credentials = email_credentials cfg, sa_body = Inr (Text (lr_message r))\<rparr>]
            @ later"
    if crit: "lr_level r = CRITICAL"
  proof -
    let ?r = "r\<lparr>lr_name := ?key\<rparr>"
    from crit have crit': "lr_level ?r = CRITICAL" by simp
    have nonempty: "lg_handlers lg \<noteq> []"
      unfolding own by (simp add: built_handlers_def)
    from Logger_log_own_handlers [OF lg _ _ nonempty, of r] level crit
    obtain up where "Logger_log w' ?key r = callHandlers w' (lg_handlers lg @ up) ?r"
      by auto
    then have run: "Logger_log w' ?key r =
        callHandlers (callHandlers (callHandlers w' ?old ?r) ?built ?r) up ?r"
      unfolding own by (simp add: callHandlers_append)
    from callHandlers_keeps_attempts [of w' ?old ?r]
    obtain earlier where e: "smtp_attempts (callHandlers w' ?old ?r) = smtp_attempts w' @ earlier"
      by blast
    from callHandlers_keeps_attempts [of "callHandlers (callHandlers w' ?old ?r) ?built ?r" up ?r]
    obtain later where l: "smtp_attempts (Logger_log w' ?key r) =
        smtp_attempts (callHandlers (callHandlers w' ?old ?r) ?built ?r) @ later"
      unfolding run by blast
    from l built_handlers_critical [OF crit', of "callHandlers w' ?old ?r" cfg "next_id w"] e
    have "smtp_attempts (Logger_log w' ?key r) =
            smtp_attempts w' @ earlier @
            [\<lparr>sa_mailhost = mail_host_detail cfg, sa_fromaddr = critical_email_host_address cfg,
              sa_toaddrs = critical_email_address_list cfg, sa_subject = critical_email_subject cfg,
              sa_credentials = email_credentials cfg, sa_body = Inr (Text (lr_message r))\<rparr>]
            @ later"
      by simp
    then show ?thesis by blast
  qed
  from key attached sent show ?thesis by blast
qed

theorem general_logger_critical_email_witness:
  "snd (general_logger fresh_world (default_config ''/app/log'')) = Inr ''general_log''
   \<and> (\<exists>earlier later.
         smtp_attempts
           (Logger_log (fst (general_logger fresh_world (default_config ''/app/log'')))
              ''general_log'' (plain_record CRITICAL ''disk full'')) =
         earlier @
         [\<lparr>sa_mailhost = ''localhost'', sa_fromaddr = [], sa_toaddrs = [],
           sa_subject = ''CRITICAL level triggered'', sa_credentials = None,
           sa_body = Inr (Text ''disk full'')\<rparr>] @ later)
   \<and> smtp_attempts
        (Logger_log (fst (general_logger fresh_world (default_config ''/app/log'')))
           ''general_log'' (plain_record CRITICAL ''disk full'')) =
       [\<lparr>sa_mailhost = ''localhost'', sa_fromaddr = [], sa_toaddrs = [],
         sa_subject = ''CRITICAL level triggered'', sa_credentials = None,
         sa_body = Inr (Text ''disk full'')\<rparr>]"
proof -
  let ?w' = "fst (general_logger fresh_world (default_config ''/app/log''))"
  let ?r = "plain_record CRITICAL ''disk full''"
  have returned: "snd (general_logger fresh_world (default_config ''/app/log'')) =
      Inr ''general_log''"
    by (simp add: general_logger_fresh_default)
  then have ret: "general_logger fresh_world (default_config ''/app/log'') =
      (?w', Inr ''general_log'')"
    by (simp add: prod_eq_iff)
  have crit: "lr_level ?r = CRITICAL"
    by (simp add: plain_record_def)
  from general_logger_critical_email [OF ids_in_use_fresh ret, of ?r] crit
  obtain earlier later where "smtp_attempts (Logger_log ?w' ''general_log'' ?r) =
      smtp_attempts ?w' @ earlier @
      [\<lparr>sa_mailhost = mail_host_detail (default_config ''/app/log''),
        sa_fromaddr = critical_email_host_address (default_config ''/app/log''),
        sa_toaddrs = critical_email_address_list (default_config ''/app/log''),
        sa_subject = critical_email_subject (default_config ''/app/log''),
        sa_credentials = email_credentials (default_config ''/app/log''),
        sa_body = Inr (Text (lr_message ?r))\<rparr>] @ later"
    by blast
  then have "smtp_attempts (Logger_log ?w' ''general_log'' ?r) =
      (smtp_attempts ?w' @ earlier) @
      [\<lparr>sa_mailhost = ''localhost'', sa_fromaddr = [], sa_toaddrs = [],
        sa_subject = ''CRITICAL level triggered'', sa_credentials = None,
        sa_body = Inr (Text ''disk full'')\<rparr>] @ later"
    by (simp add: default_config_def plain_record_def)
  then have among: "\<exists>earlier later. smtp_attempts (Logger_log ?w' ''general_log'' ?r) =
      earlier @
      [\<lparr>sa_mailhost = ''localhost'', sa_fromaddr = [], sa_toaddrs = [],
        sa_subject = ''CRITICAL level triggered'', sa_credentials = None,
        sa_body = Inr (Text ''disk full'')\<rparr>] @ later"
    by blast
  have only: "smtp_attempts (Logger_log ?w' ''general_log'' ?r) =
      [\<lparr>sa_mailhost = ''localhost'', sa_fromaddr = [], sa_toaddrs = [],
        sa_subject = ''CRITICAL level triggered'', sa_credentials = None,
        sa_body = Inr (Text ''disk full'')\<rparr>]"
    unfolding general_logger_fresh_default
    by (simp add: Logger_log_def Logger_callHandlers_def logger_at_def
        new_logger_def default_config_def
        handlers_of_def fresh_world_def built_handlers_def file_formatter_def log_file_def
        emit_def Handler_format_def Formatter_format_def handleError_def plain_record_def
        record_attr_def logfile_format_def default_format_def file_content_def Let_def)
  from returned among only show ?thesis
    by blast
qed

end
